theory Spec2Isabelle
  imports Main
begin

section \<open>JavaScript values and objects\<close>

text \<open>
  The column hook works on plain JavaScript objects. A property value is one of the
  primitive values below. A JavaScript number is an IEEE 754 double. \<open>Num n\<close> is the
  finite double whose value is the integer \<open>n\<close> (pixel widths and sort priorities are
  such numbers; the two zeros are identified, no operation of the hook tells them
  apart), \<open>PosInf\<close> and \<open>NegInf\<close> are the two infinities, and \<open>NaN\<close> is the value
  that arithmetic on a missing width produces and the one value that is not strictly
  equal to itself. A double with a fractional part has no representation in this type:
  the one computation of the hook on numbers, the running total of \<open>toMeta\<close>, is
  therefore defined below for any representation of numbers (\<open>toMetaWith\<close>), and this
  type is the instance on which the rest of the hook is traced. The exponent notation
  that the conversion to a string uses for very large numbers is outside the model.
  Properties holding functions or nested objects (renderers, comparators) are never
  read by the hook and are left out.
\<close>

datatype jsval = Undef | Null | Bool bool | Num int | PosInf | NegInf | NaN | Str string

text \<open>\<^verbatim>\<open>v == null\<close>: true for \<^verbatim>\<open>null\<close> and \<^verbatim>\<open>undefined\<close> only.\<close>

definition loose_null :: "jsval \<Rightarrow> bool" where
  "loose_null v = (v = Undef \<or> v = Null)"

text \<open>\<^verbatim>\<open>a === b\<close> on primitive values.\<close>

definition strict_eq :: "jsval \<Rightarrow> jsval \<Rightarrow> bool" where
  "strict_eq a b = (a = b \<and> a \<noteq> NaN)"

text \<open>Truthiness, as \<^verbatim>\<open>!v\<close> and \<^verbatim>\<open>if (v)\<close> test it.\<close>

fun truthy :: "jsval \<Rightarrow> bool" where
  "truthy Undef = False"
| "truthy Null = False"
| "truthy (Bool b) = b"
| "truthy (Num n) = (n \<noteq> 0)"
| "truthy PosInf = True"
| "truthy NegInf = True"
| "truthy NaN = False"
| "truthy (Str s) = (s \<noteq> [])"

fun nat_digits :: "nat \<Rightarrow> string" where
  "nat_digits n =
     (if n < 10 then [''0123456789'' ! n]
      else nat_digits (n div 10) @ [''0123456789'' ! (n mod 10)])"

declare nat_digits.simps [simp del]

text \<open>
  The conversion to a string, which JavaScript applies to a property key
  (\<^verbatim>\<open>lookup[col.field]\<close>) and to the operands of \<^verbatim>\<open>+\<close> when one of them is a string.
\<close>

fun to_string :: "jsval \<Rightarrow> string" where
  "to_string Undef = ''undefined''"
| "to_string Null = ''null''"
| "to_string (Bool b) = (if b then ''true'' else ''false'')"
| "to_string (Num n) = (if n < 0 then CHR ''-'' # nat_digits (nat (- n)) else nat_digits (nat n))"
| "to_string PosInf = ''Infinity''"
| "to_string NegInf = ''-Infinity''"
| "to_string NaN = ''NaN''"
| "to_string (Str s) = s"

text \<open>The conversion to a number of the values that are not strings.\<close>

fun to_number :: "jsval \<Rightarrow> jsval" where
  "to_number Undef = NaN"
| "to_number Null = Num 0"
| "to_number (Bool b) = Num (if b then 1 else 0)"
| "to_number (Num n) = Num n"
| "to_number PosInf = PosInf"
| "to_number NegInf = NegInf"
| "to_number NaN = NaN"
| "to_number (Str s) = NaN"

fun is_str :: "jsval \<Rightarrow> bool" where
  "is_str (Str s) = True"
| "is_str _ = False"

text \<open>
  The number of binary digits of a natural number.
\<close>

fun bit_length :: "nat \<Rightarrow> nat" where
  "bit_length n = (if n = 0 then 0 else Suc (bit_length (n div 2)))"

declare bit_length.simps [simp del]

text \<open>
  The double nearest to an integer \<open>s\<close>, as IEEE 754 addition rounds an exact sum: an
  integer of magnitude at most \<open>2\<^sup>5\<^sup>3\<close> is a double; a larger one keeps its 53 leading
  binary digits, rounded to the nearest such number and to the even one in a tie; a
  result of magnitude \<open>2\<^sup>1\<^sup>0\<^sup>2\<^sup>4\<close> or more is an infinity.
\<close>

definition round_double :: "int \<Rightarrow> jsval" where
  "round_double s =
     (let n = nat \<bar>s\<bar> in
      if n \<le> 9007199254740992 then Num s
      else
        (let q = 2 ^ (bit_length n - 53);
             m = n div q;
             r = n mod q;
             m' = (if q < 2 * r \<or> (2 * r = q \<and> odd m) then m + 1 else m)
         in if 2 ^ 1024 \<le> m' * q then (if 0 < s then PosInf else NegInf)
            else Num (sgn s * int (m' * q))))"

text \<open>
  The sum of two numbers: the rounded exact sum of two finite numbers, an infinity
  when one operand is that infinity and the other is not the opposite one, \<open>NaN\<close>
  otherwise.
\<close>

fun num_add :: "jsval \<Rightarrow> jsval \<Rightarrow> jsval" where
  "num_add (Num a) (Num b) = round_double (a + b)"
| "num_add (Num a) PosInf = PosInf"
| "num_add (Num a) NegInf = NegInf"
| "num_add PosInf (Num b) = PosInf"
| "num_add NegInf (Num b) = NegInf"
| "num_add PosInf PosInf = PosInf"
| "num_add NegInf NegInf = NegInf"
| "num_add _ _ = NaN"

text \<open>
  \<^verbatim>\<open>a + b\<close>: concatenation as soon as one operand is a string, the sum of the
  operands converted to numbers otherwise (\<open>to_number\<close> is then never applied to a
  string).
\<close>

definition js_add :: "jsval \<Rightarrow> jsval \<Rightarrow> jsval" where
  "js_add a b =
     (if is_str a \<or> is_str b then Str (to_string a @ to_string b)
      else num_add (to_number a) (to_number b))"

text \<open>
  An object is a finite map from property names to values. Reading a property that the
  object does not have gives \<^verbatim>\<open>undefined\<close>. The object spread \<^verbatim>\<open>{ ...a, ...b }\<close> is the
  map \<open>a ++ b\<close>: every own property of \<open>b\<close>, also one whose value is \<^verbatim>\<open>undefined\<close>,
  replaces that of \<open>a\<close>.
\<close>

type_synonym ColDef = "string \<rightharpoonup> jsval"

definition getProp :: "ColDef \<Rightarrow> string \<Rightarrow> jsval" where
  "getProp c k = (case c k of None \<Rightarrow> Undef | Some v \<Rightarrow> v)"

text \<open>
  \<^verbatim>\<open>Array.prototype.findIndex\<close>: the index of the first element that satisfies the
  predicate, \<open>-1\<close> when there is none.
\<close>

fun findIndex_from :: "('a \<Rightarrow> bool) \<Rightarrow> 'a list \<Rightarrow> int \<Rightarrow> int" where
  "findIndex_from P [] i = - 1"
| "findIndex_from P (x # xs) i = (if P x then i else findIndex_from P xs (i + 1))"

definition findIndex :: "('a \<Rightarrow> bool) \<Rightarrow> 'a list \<Rightarrow> int" where
  "findIndex P xs = findIndex_from P xs 0"

section \<open>Derived column data\<close>

record ColumnsMeta =
  totalWidth :: jsval
  positions :: "jsval list"

record InternalColumns =
  all :: "ColDef list"
  visible :: "ColDef list"
  meta :: ColumnsMeta
  lookup :: "string \<rightharpoonup> ColDef"
  hasColumns :: bool
  hasVisibleColumns :: bool

text \<open>
  \<^verbatim>\<open>allColumns.reduce((lookup, col) => { lookup[col.field] = col; return lookup; }, {})\<close>.
  The lookup object is the map of its own properties; the field is converted to the
  property key (the special key \<^verbatim>\<open>__proto__\<close> is outside the model).
\<close>

definition toLookup_step :: "ColDef \<Rightarrow> (string \<rightharpoonup> ColDef) \<Rightarrow> (string \<rightharpoonup> ColDef)" where
  "toLookup_step col lk = lk(to_string (getProp col ''field'') \<mapsto> col)"

definition toLookup :: "ColDef list \<Rightarrow> (string \<rightharpoonup> ColDef)" where
  "toLookup allColumns = fold toLookup_step allColumns Map.empty"

text \<open>\<^verbatim>\<open>allColumns.filter(c => c.field != null && !c.hide)\<close>\<close>

definition filterVisible :: "ColDef list \<Rightarrow> ColDef list" where
  "filterVisible allColumns =
     filter (\<lambda>c. \<not> loose_null (getProp c ''field'') \<and> \<not> truthy (getProp c ''hide'')) allColumns"

text \<open>
  The reduction of \<open>toMeta\<close> threads the running total and pushes it onto
  \<open>positions\<close> before adding the width of the current column. The reduction uses
  nothing of numbers but the operator \<^verbatim>\<open>+\<close>, the initial total \<^verbatim>\<open>0\<close> and the reading of
  \<^verbatim>\<open>curCol.width\<close>; \<open>toMetaWith\<close> is the reduction with these three as the parameters
  \<open>addW\<close>, \<open>zeroW\<close> and \<open>widthOf\<close>, so
  that what is proved of it holds of the doubles of JavaScript, fractional widths
  included, whatever \<^verbatim>\<open>+\<close> rounds. It returns the final total and the array pushed.
\<close>

definition toMeta_step :: "('w \<Rightarrow> 'w \<Rightarrow> 'w) \<Rightarrow> ('c \<Rightarrow> 'w) \<Rightarrow> 'c \<Rightarrow> 'w \<times> 'w list \<Rightarrow> 'w \<times> 'w list" where
  "toMeta_step addW widthOf curCol acc =
     (case acc of (totalW, pushed) \<Rightarrow> (addW totalW (widthOf curCol), pushed @ [totalW]))"

definition toMetaWith :: "('w \<Rightarrow> 'w \<Rightarrow> 'w) \<Rightarrow> 'w \<Rightarrow> ('c \<Rightarrow> 'w) \<Rightarrow> 'c list \<Rightarrow> 'w \<times> 'w list" where
  "toMetaWith addW zeroW widthOf visibleColumns =
     fold (toMeta_step addW widthOf) visibleColumns (zeroW, [])"

text \<open>\<open>toMeta\<close> on column objects, with the \<^verbatim>\<open>+\<close> of JavaScript values.\<close>

definition toMeta :: "ColDef list \<Rightarrow> ColumnsMeta" where
  "toMeta visibleColumns =
     (case toMetaWith js_add (Num 0) (\<lambda>curCol. getProp curCol ''width'') visibleColumns of
        (totalW, pushed) \<Rightarrow> \<lparr> totalWidth = totalW, positions = pushed \<rparr>)"

text \<open>
  Reading an array at an index: an index that is no element of the array (here \<open>-1\<close>,
  the failure value of \<open>findIndex\<close>) reads \<^verbatim>\<open>undefined\<close>, modelled as \<open>None\<close>.
\<close>

definition array_read :: "'a list \<Rightarrow> int \<Rightarrow> 'a option" where
  "array_read xs i = (if 0 \<le> i \<and> i < int (length xs) then Some (xs ! nat i) else None)"

text \<open>
  Writing an array at an index that \<open>findIndex\<close> returned for that array: the index is
  an element index or \<open>-1\<close>. For \<open>-1\<close> the assignment defines a property named \<^verbatim>\<open>-1\<close>,
  which is no element: the elements are unchanged, and the copy \<^verbatim>\<open>[...newState.all]\<close>
  that follows the write drops that property.
\<close>

definition array_write :: "'a list \<Rightarrow> int \<Rightarrow> 'a \<Rightarrow> 'a list" where
  "array_write xs i v = (if 0 \<le> i \<and> i < int (length xs) then xs[nat i := v] else xs)"

section \<open>Hydration\<close>

text \<open>
  The models module is not part of the sources at hand: the default definition of a
  column type (\<open>getColDef\<close>) and the checkbox-selection column
  (\<open>checkboxSelectionColDef\<close>) are parameters of the functions that use them. The host
  grid API handle \<^verbatim>\<open>apiRef.current\<close> is \<open>None\<close> while the ref is empty; its
  \<open>getSortModel\<close> is \<open>None\<close> when the API object has no such member, and otherwise holds
  the sort model that a call returns.
\<close>

record GridOptions =
  checkboxSelection :: bool

record SortItem =
  colId :: string
  sort :: jsval

record GridApi =
  getSortModel :: "SortItem list option"

type_synonym ApiRef = "GridApi option"

text \<open>
  Lines 21 to 24: \<^verbatim>\<open>columns.map(c => ({ ...getColDef(c.type), ...c }))\<close>, with the
  checkbox-selection column in front when the option is set.
\<close>

definition mapColumns ::
  "(jsval \<Rightarrow> ColDef) \<Rightarrow> ColDef \<Rightarrow> ColDef list \<Rightarrow> GridOptions \<Rightarrow> ColDef list" where
  "mapColumns getColDef checkboxSelectionColDef columns options =
     (let mappedCols = map (\<lambda>c. getColDef (getProp c ''type'') ++ c) columns
      in if checkboxSelection options then checkboxSelectionColDef # mappedCols
         else mappedCols)"

text \<open>
  The objects of \<open>mappedCols\<close> are pairwise distinct (each is a fresh literal, and the
  checkbox-selection column occurs once), so a reference to one of them is its position
  in \<open>mappedCols\<close>, and a write through the reference is an update at that position.
  \<open>sortedCols\<close> of line 25 is the list of these references, all of them positions of
  \<open>mappedCols\<close>. A write to the checkbox-selection column reaches the shared object of
  the models module and so lasts beyond the call: the parameter
  \<open>checkboxSelectionColDef\<close> is the value of that object when the function is called.
\<close>

definition sortedCols :: "ColDef list \<Rightarrow> nat list" where
  "sortedCols mappedCols =
     filter (\<lambda>c. \<not> loose_null (getProp (mappedCols ! c) ''sortDirection''))
       [0..<length mappedCols]"

text \<open>The body of the loop of lines 28 to 32, at index \<open>idx\<close> and reference \<open>c\<close>.\<close>

definition setMissingSortIndex :: "nat \<times> nat \<Rightarrow> ColDef list \<Rightarrow> ColDef list" where
  "setMissingSortIndex ic mappedCols =
     (case ic of (idx, c) \<Rightarrow>
        if loose_null (getProp (mappedCols ! c) ''sortIndex'')
        then mappedCols[c := (mappedCols ! c)(''sortIndex'' \<mapsto> Num (int idx + 1))]
        else mappedCols)"

text \<open>
  The body of the loop of lines 37 to 43 for a sort model of \<open>n\<close> entries: \<open>find\<close>
  returns the first column whose field is strictly equal to \<open>colId\<close>, and an object
  found is always truthy.
\<close>

definition applySortItem :: "nat \<Rightarrow> nat \<times> SortItem \<Rightarrow> ColDef list \<Rightarrow> ColDef list" where
  "applySortItem n ic mappedCols =
     (case ic of (idx, c) \<Rightarrow>
        (let col = findIndex (\<lambda>mc. strict_eq (getProp mc ''field'') (Str (colId c))) mappedCols
         in if 0 \<le> col
            then mappedCols[nat col := (mappedCols ! nat col)
                   (''sortDirection'' \<mapsto> sort c,
                    ''sortIndex'' \<mapsto> (if 1 < n then Num (int idx + 1) else Undef))]
            else mappedCols))"

text \<open>
  Lines 25 to 33: the priorities are filled in only when some column carries a sort
  direction and the API handle is attached.
\<close>

definition assignSortIndexes :: "ColDef list \<Rightarrow> ApiRef \<Rightarrow> ColDef list" where
  "assignSortIndexes mappedCols apiRef =
     (let sorted = sortedCols mappedCols
      in if 0 < length sorted \<and> apiRef \<noteq> None
         then fold setMissingSortIndex (enumerate 0 sorted) mappedCols
         else mappedCols)"

text \<open>
  Lines 35 to 44: the sort model of the host grid API is applied again when the handle
  is attached and has a \<open>getSortModel\<close> member.
\<close>

definition applySortModel :: "ColDef list \<Rightarrow> ApiRef \<Rightarrow> ColDef list" where
  "applySortModel mappedCols apiRef =
     (case apiRef of
        None \<Rightarrow> mappedCols
      | Some api \<Rightarrow>
          (case getSortModel api of
             None \<Rightarrow> mappedCols
           | Some sortModel \<Rightarrow>
               fold (applySortItem (length sortModel)) (enumerate 0 sortModel) mappedCols))"

definition hydrateColumns ::
  "(jsval \<Rightarrow> ColDef) \<Rightarrow> ColDef \<Rightarrow> ColDef list \<Rightarrow> GridOptions \<Rightarrow> ApiRef \<Rightarrow> ColDef list" where
  "hydrateColumns getColDef checkboxSelectionColDef columns options apiRef =
     (let mappedCols = mapColumns getColDef checkboxSelectionColDef columns options;
          mappedCols = assignSortIndexes mappedCols apiRef;
          mappedCols = applySortModel mappedCols apiRef
      in mappedCols)"

section \<open>The column state\<close>

definition resetState ::
  "(jsval \<Rightarrow> ColDef) \<Rightarrow> ColDef \<Rightarrow> ColDef list \<Rightarrow> GridOptions \<Rightarrow> ApiRef \<Rightarrow> InternalColumns" where
  "resetState getColDef checkboxSelectionColDef columns options apiRef =
     (let allCols = hydrateColumns getColDef checkboxSelectionColDef columns options apiRef;
          visibleCols = filterVisible allCols;
          m = toMeta visibleCols;
          lk = toLookup allCols
      in \<lparr> all = allCols, visible = visibleCols, meta = m, lookup = lk,
           hasColumns = (0 < length allCols),
           hasVisibleColumns = (0 < length visibleCols) \<rparr>)"

text \<open>
  The body of the loop of lines 90 to 98 on the pair \<^verbatim>\<open>(newState.all, newState.lookup)\<close>.
  Spreading \<^verbatim>\<open>undefined\<close> (the read at index \<open>-1\<close>) contributes no property.

  \<open>newState\<close> starts as a shallow copy of \<open>state\<close>: until the copies of lines 94 and
  97 its array and its lookup object are those of \<open>state\<close>, so the first write of the
  loop also changes the array and the lookup object that the previous state holds.
  The model is the value that the function returns: it is built from the copies, and
  it is what the hook commits and reads from then on.
\<close>

definition applyColumnUpdate ::
  "ColDef \<Rightarrow> ColDef list \<times> (string \<rightharpoonup> ColDef) \<Rightarrow> ColDef list \<times> (string \<rightharpoonup> ColDef)" where
  "applyColumnUpdate newColumn st =
     (case st of (cols, lk) \<Rightarrow>
        (let index = findIndex (\<lambda>c. strict_eq (getProp c ''field'') (getProp newColumn ''field'')) cols;
             columnUpdated =
               (case array_read cols index of None \<Rightarrow> Map.empty | Some c \<Rightarrow> c) ++ newColumn
         in (array_write cols index columnUpdated,
             lk(to_string (getProp newColumn ''field'') \<mapsto> columnUpdated))))"

definition getUpdatedColumnState :: "InternalColumns \<Rightarrow> ColDef list \<Rightarrow> InternalColumns" where
  "getUpdatedColumnState state columnUpdates =
     (case fold applyColumnUpdate columnUpdates (all state, lookup state) of
        (newAll, newLookup) \<Rightarrow>
          (let visibleCols = filterVisible newAll;
               m = toMeta visibleCols
           in state\<lparr> all := newAll, lookup := newLookup, visible := visibleCols, meta := m,
                     hasColumns := (0 < length newAll),
                     hasVisibleColumns := (0 < length visibleCols) \<rparr>))"

section \<open>The hook\<close>

text \<open>
  The state that the hook keeps between calls: the React state \<open>internalColumns\<close>, the
  two refs, and, as outputs, the events emitted on the host's bus and the number of
  re-renders requested through \<open>rafUpdate\<close>.
\<close>

datatype event = COLUMNS_UPDATED "ColDef list"

record hook =
  internalColumns :: InternalColumns
  stateRef :: InternalColumns
  sortedColFieldsRef :: "string list"
  emitted :: "event list"
  rafUpdates :: nat

definition updateState :: "ApiRef \<Rightarrow> InternalColumns \<Rightarrow> bool \<Rightarrow> hook \<Rightarrow> hook" where
  "updateState apiRef newState emit h =
     (let h1 = h\<lparr> internalColumns := newState, stateRef := newState \<rparr>
      in if apiRef \<noteq> None \<and> emit
         then h1\<lparr> emitted := emitted h1 @ [COLUMNS_UPDATED (all newState)] \<rparr>
         else h1)"

text \<open>The first render: \<open>useMemo\<close> computes the state that initialises state and refs.\<close>

definition useColumns_init ::
  "(jsval \<Rightarrow> ColDef) \<Rightarrow> ColDef \<Rightarrow> GridOptions \<Rightarrow> ColDef list \<Rightarrow> ApiRef \<Rightarrow> hook" where
  "useColumns_init getColDef checkboxSelectionColDef options columns apiRef =
     (let state = resetState getColDef checkboxSelectionColDef columns options apiRef
      in \<lparr> internalColumns = state, stateRef = state, sortedColFieldsRef = [],
           emitted = [], rafUpdates = 0 \<rparr>)"

text \<open>The effect of lines 129 to 133, run after mount and when columns or options change.\<close>

definition columnsChanged ::
  "(jsval \<Rightarrow> ColDef) \<Rightarrow> ColDef \<Rightarrow> GridOptions \<Rightarrow> ColDef list \<Rightarrow> ApiRef \<Rightarrow> hook \<Rightarrow> hook" where
  "columnsChanged getColDef checkboxSelectionColDef options columns apiRef h =
     (let newState = resetState getColDef checkboxSelectionColDef columns options apiRef
      in updateState apiRef newState True h)"

definition getColumnIndex :: "hook \<Rightarrow> string \<Rightarrow> int" where
  "getColumnIndex h field =
     findIndex (\<lambda>c. strict_eq (getProp c ''field'') (Str field)) (visible (stateRef h))"

definition getColumnPosition :: "hook \<Rightarrow> string \<Rightarrow> jsval" where
  "getColumnPosition h field =
     (let index = getColumnIndex h field
      in case array_read (positions (meta (stateRef h))) index of
           None \<Rightarrow> Undef
         | Some p \<Rightarrow> p)"

definition updateColumn :: "ApiRef \<Rightarrow> ColDef \<Rightarrow> hook \<Rightarrow> hook" where
  "updateColumn apiRef col h =
     (let newState = getUpdatedColumnState (stateRef h) [col]
      in updateState apiRef newState False h)"

definition updateColumns :: "ApiRef \<Rightarrow> ColDef list \<Rightarrow> hook \<Rightarrow> hook" where
  "updateColumns apiRef cols h =
     (let newState = getUpdatedColumnState (stateRef h) cols
      in updateState apiRef newState False h)"

text \<open>
  The two loops of \<open>onSortedColumns\<close>. The first pushes a clearing patch for every
  field of \<open>sortedColFieldsRef\<close>; the second, at index \<open>index\<close> of a sort model of
  \<open>n\<close> entries, appends the field to the ref and pushes the patch \<open>sortPatch\<close>
  that sets it.
\<close>

definition clearPatch :: "string \<Rightarrow> ColDef" where
  "clearPatch field =
     [''field'' \<mapsto> Str field, ''sortDirection'' \<mapsto> Null, ''sortIndex'' \<mapsto> Undef]"

definition sortPatch :: "nat \<Rightarrow> nat \<Rightarrow> SortItem \<Rightarrow> ColDef" where
  "sortPatch n index model =
     (let sortIndex = (if 1 < n then Num (int index + 1) else Undef)
      in [''field'' \<mapsto> Str (colId model),
          ''sortDirection'' \<mapsto> sort model,
          ''sortIndex'' \<mapsto> sortIndex])"

definition pushSortPatch ::
  "nat \<Rightarrow> nat \<times> SortItem \<Rightarrow> string list \<times> ColDef list \<Rightarrow> string list \<times> ColDef list" where
  "pushSortPatch n im acc =
     (case im of (index, model) \<Rightarrow>
        (case acc of (sortedFields, updatedCols) \<Rightarrow>
           (sortedFields @ [colId model], updatedCols @ [sortPatch n index model])))"

definition onSortedColumns :: "ApiRef \<Rightarrow> SortItem list \<Rightarrow> hook \<Rightarrow> hook" where
  "onSortedColumns apiRef sortModel h =
     (let restored = fold (\<lambda>field updatedCols. updatedCols @ [clearPatch field])
                       (sortedColFieldsRef h) [];
          (sortedFields, updatedCols) =
             fold (pushSortPatch (length sortModel)) (enumerate 0 sortModel) ([], restored);
          h1 = h\<lparr> sortedColFieldsRef := sortedFields \<rparr>;
          h2 = (if 0 < length updatedCols then updateColumns apiRef updatedCols h1 else h1)
      in h2\<lparr> rafUpdates := rafUpdates h2 + 1 \<rparr>)"

section \<open>Notions used by the properties\<close>

text \<open>The index that a patch update computes for the patch \<open>p\<close> on the columns \<open>cols\<close>.\<close>

abbreviation patchIndex :: "ColDef list \<Rightarrow> ColDef \<Rightarrow> int" where
  "patchIndex cols p \<equiv>
     findIndex (\<lambda>c. strict_eq (getProp c ''field'') (getProp p ''field'')) cols"

text \<open>
  The patches that the sort-model reaction builds from the fields \<open>prev\<close> annotated by
  the previous reaction and the new sort model.
\<close>

definition sortPatches :: "string list \<Rightarrow> SortItem list \<Rightarrow> ColDef list" where
  "sortPatches prev sortModel =
     map clearPatch prev @
     map (\<lambda>im. sortPatch (length sortModel) (fst im) (snd im)) (enumerate 0 sortModel)"

text \<open>
  The column \<open>c'\<close> is the column \<open>c\<close> up to its sort annotation: the two agree on
  every property other than \<^verbatim>\<open>sortDirection\<close> and \<^verbatim>\<open>sortIndex\<close>.
\<close>

definition sortAnnotated :: "ColDef \<Rightarrow> ColDef \<Rightarrow> bool" where
  "sortAnnotated c c' = (\<forall>k. k \<noteq> ''sortDirection'' \<and> k \<noteq> ''sortIndex'' \<longrightarrow> c' k = c k)"

text \<open>A column carries a sort direction: the test of line 25.\<close>

definition hasSortDirection :: "ColDef \<Rightarrow> bool" where
  "hasSortDirection c = (\<not> loose_null (getProp c ''sortDirection''))"

text \<open>
  What the loop of lines 28 to 32 does to one column at index \<open>idx\<close>: a missing
  priority becomes \<open>idx + 1\<close>.
\<close>

definition withSortIndex :: "nat \<Rightarrow> ColDef \<Rightarrow> ColDef" where
  "withSortIndex idx c =
     (if loose_null (getProp c ''sortIndex'') then c(''sortIndex'' \<mapsto> Num (int idx + 1))
      else c)"

text \<open>
  What the loop of lines 37 to 43 does to the column it finds, for the entry \<open>m\<close> at
  index \<open>idx\<close> of a sort model of \<open>n\<close> entries.
\<close>

definition withSortItem :: "nat \<Rightarrow> nat \<Rightarrow> SortItem \<Rightarrow> ColDef \<Rightarrow> ColDef" where
  "withSortItem n idx m c =
     c(''sortDirection'' \<mapsto> sort m,
       ''sortIndex'' \<mapsto> (if 1 < n then Num (int idx + 1) else Undef))"

text \<open>The key under which the lookup map holds a column.\<close>

abbreviation lookupKey :: "ColDef \<Rightarrow> string" where
  "lookupKey c \<equiv> to_string (getProp c ''field'')"

text \<open>
  Internal consistency of a column state, as the specification words it: the visible
  columns are the identified, not hidden columns of \<open>all\<close> in their order, the metadata
  is derived from the visible columns, and the lookup map is the fold of \<open>all\<close>.
\<close>

definition derivedConsistent :: "InternalColumns \<Rightarrow> bool" where
  "derivedConsistent s =
     (visible s = filterVisible (all s) \<and> meta s = toMeta (visible s))"



text \<open>
  Modelled from the spec: the type-indexed default definition \<open>getColDef\<close> of the
  models module, which is not among the sources. The specification says only that it
  gives a default definition for a column type; this example value, used to evaluate
  the model on concrete inputs, gives every type a width of 100.
\<close>

definition exampleGetColDef :: "jsval \<Rightarrow> ColDef" where
  "exampleGetColDef t = [''width'' \<mapsto> Num 100]"

text \<open>
  Modelled from the spec: the checkbox-selection column definition
  \<open>checkboxSelectionColDef\<close> of the models module, which is not among the sources: a
  fixed column with a reserved field identifier, not hidden. The specification does not
  give the identifier; \<^verbatim>\<open>__check__\<close> stands for it in this example value.
\<close>

definition exampleCheckboxColDef :: ColDef where
  "exampleCheckboxColDef = [''field'' \<mapsto> Str ''__check__'', ''width'' \<mapsto> Num 80]"

text \<open>
  The columns of the example of the specification, and a state and a hook that hold
  them, used to evaluate the model on concrete inputs.
\<close>

definition exampleColumns :: "ColDef list" where
  "exampleColumns =
     [[''field'' \<mapsto> Str ''a'', ''width'' \<mapsto> Num 100],
      [''field'' \<mapsto> Str ''b'', ''width'' \<mapsto> Num 50, ''hide'' \<mapsto> Bool True],
      [''field'' \<mapsto> Str ''c'', ''width'' \<mapsto> Num 80]]"

definition exampleState :: InternalColumns where
  "exampleState =
     \<lparr> all = [[''field'' \<mapsto> Str ''a'', ''width'' \<mapsto> Num 100],
              [''field'' \<mapsto> Str ''b'', ''width'' \<mapsto> Num 50, ''hide'' \<mapsto> Bool True],
              [''field'' \<mapsto> Str ''c'', ''width'' \<mapsto> Num 80]],
       visible = [[''field'' \<mapsto> Str ''a'', ''width'' \<mapsto> Num 100],
                  [''field'' \<mapsto> Str ''c'', ''width'' \<mapsto> Num 80]],
       meta = \<lparr> totalWidth = Num 180, positions = [Num 0, Num 100] \<rparr>,
       lookup = [''a'' \<mapsto> [''field'' \<mapsto> Str ''a'', ''width'' \<mapsto> Num 100],
                 ''b'' \<mapsto> [''field'' \<mapsto> Str ''b'', ''width'' \<mapsto> Num 50,
                            ''hide'' \<mapsto> Bool True],
                 ''c'' \<mapsto> [''field'' \<mapsto> Str ''c'', ''width'' \<mapsto> Num 80]],
       hasColumns = True,
       hasVisibleColumns = True \<rparr>"

definition exampleHook :: hook where
  "exampleHook =
     \<lparr> internalColumns = exampleState, stateRef = exampleState, sortedColFieldsRef = [],
       emitted = [], rafUpdates = 0 \<rparr>"

section \<open>Values and array search\<close>

lemma strict_eq_Str [simp]: "strict_eq v (Str s) = (v = Str s)"
  by (auto simp: strict_eq_def)

lemma strict_eq_imp_eq: "strict_eq a b \<Longrightarrow> a = b"
  by (simp add: strict_eq_def)

lemma findIndex_from_eq:
  "findIndex_from P xs k =
     (if \<exists>x\<in>set xs. P x then k + int (length (takeWhile (\<lambda>x. \<not> P x) xs)) else - 1)"
  by (induction xs arbitrary: k) auto

lemma findIndex_eq:
  "findIndex P xs =
     (if \<exists>x\<in>set xs. P x then int (length (takeWhile (\<lambda>x. \<not> P x) xs)) else - 1)"
  by (simp add: findIndex_def findIndex_from_eq)

lemma findIndex_none: "(findIndex P xs = - 1) = (\<forall>x\<in>set xs. \<not> P x)"
  by (simp add: findIndex_eq)

lemma findIndex_nonneg: "(0 \<le> findIndex P xs) = (\<exists>x\<in>set xs. P x)"
  by (simp add: findIndex_eq)

lemma takeWhile_length_less:
  "\<exists>x\<in>set xs. P x \<Longrightarrow> length (takeWhile (\<lambda>x. \<not> P x) xs) < length xs"
  by (induction xs) auto

lemma takeWhile_holds_before:
  "j < length (takeWhile Q xs) \<Longrightarrow> Q (xs ! j)"
proof (induction xs arbitrary: j)
  case Nil
  then show ?case by simp
next
  case (Cons x xs)
  then show ?case by (cases j) (auto split: if_splits)
qed

lemma findIndex_found:
  assumes "0 \<le> findIndex P xs"
  shows "nat (findIndex P xs) < length xs"
    and "P (xs ! nat (findIndex P xs))"
    and "\<forall>j<nat (findIndex P xs). \<not> P (xs ! j)"
proof -
  from assms have ex: "\<exists>x\<in>set xs. P x" by (simp add: findIndex_nonneg)
  then have n: "nat (findIndex P xs) = length (takeWhile (\<lambda>x. \<not> P x) xs)"
    by (simp add: findIndex_eq)
  from ex have lt: "length (takeWhile (\<lambda>x. \<not> P x) xs) < length xs"
    by (rule takeWhile_length_less)
  show "nat (findIndex P xs) < length xs" using lt n by simp
  show "P (xs ! nat (findIndex P xs))"
    using nth_length_takeWhile [OF lt] n by simp
  show "\<forall>j<nat (findIndex P xs). \<not> P (xs ! j)"
    using n takeWhile_holds_before [of _ "\<lambda>x. \<not> P x" xs] by auto
qed

lemma findIndex_first:
  assumes "i < length xs" "P (xs ! i)" "\<forall>j<i. \<not> P (xs ! j)"
  shows "findIndex P xs = int i"
proof -
  have ex: "0 \<le> findIndex P xs" using assms by (auto simp: findIndex_nonneg)
  note f = findIndex_found [OF ex]
  have "\<not> nat (findIndex P xs) < i" using f(2) assms(3) by blast
  moreover have "\<not> i < nat (findIndex P xs)" using f(3) assms(2) by blast
  ultimately show ?thesis using ex by linarith
qed

lemma findIndex_cases: "findIndex P xs = - 1 \<or> 0 \<le> findIndex P xs"
  by (simp add: findIndex_eq)

lemma findIndex_cong_map: "map P xs = map Q ys \<Longrightarrow> findIndex P xs = findIndex Q ys"
proof -
  have "map P xs = map Q ys \<Longrightarrow> findIndex_from P xs k = findIndex_from Q ys k" for k
  proof (induction xs arbitrary: ys k)
    case Nil
    then show ?case by simp
  next
    case (Cons x xs)
    then obtain y ys' where ys: "ys = y # ys'" by (cases ys) auto
    with Cons show ?case by auto
  qed
  then show "map P xs = map Q ys \<Longrightarrow> findIndex P xs = findIndex Q ys"
    by (simp add: findIndex_def)
qed

section \<open>Column metadata\<close>

lemma fold_toMeta_step:
  "fold (toMeta_step addW widthOf) vis (t, ps) =
     (foldl addW t (map widthOf vis),
      ps @ map (\<lambda>i. foldl addW t (map widthOf (take i vis))) [0..<length vis])"
proof (induction vis arbitrary: t ps)
  case Nil
  show ?case by simp
next
  case (Cons c vis)
  have upt: "[0..<Suc (length vis)] = 0 # map Suc [0..<length vis]"
    by (simp add: upt_conv_Cons map_Suc_upt del: upt_Suc)
  have "fold (toMeta_step addW widthOf) (c # vis) (t, ps) =
        fold (toMeta_step addW widthOf) vis (addW t (widthOf c), ps @ [t])"
    by (simp add: toMeta_step_def)
  also note Cons.IH
  finally show ?case
    by (simp add: upt comp_def del: upt_Suc)
qed

lemma toMetaWith_eq:
  "toMetaWith addW zeroW widthOf vis =
     (foldl addW zeroW (map widthOf vis),
      map (\<lambda>i. foldl addW zeroW (map widthOf (take i vis))) [0..<length vis])"
  by (simp add: toMetaWith_def fold_toMeta_step)

lemma round_double_safe: "\<bar>s\<bar> \<le> 9007199254740992 \<Longrightarrow> round_double s = Num s"
  by (simp add: round_double_def Let_def nat_le_iff)

lemma bit_length_Suc_0: "bit_length (Suc 0) = Suc 0"
  by (subst bit_length.simps, subst bit_length.simps) simp

lemma bit_length_Bit0: "bit_length (numeral (Num.Bit0 k)) = Suc (bit_length (numeral k))"
  by (subst bit_length.simps) (simp del: One_nat_def)

lemma bit_length_Bit1: "bit_length (numeral (Num.Bit1 k)) = Suc (bit_length (numeral k))"
  by (subst bit_length.simps) (simp del: One_nat_def)

lemmas bit_length_numeral = bit_length_Suc_0 bit_length_Bit0 bit_length_Bit1

lemma js_add_Num: "js_add (Num a) (Num b) = round_double (a + b)"
  by (simp add: js_add_def)

lemma foldl_js_add_Num:
  "\<forall>i\<le>length ws. \<bar>a + sum_list (take i ws)\<bar> \<le> 9007199254740992 \<Longrightarrow>
   foldl js_add (Num a) (map Num ws) = Num (a + sum_list ws)"
proof (induction ws arbitrary: a)
  case Nil
  show ?case by simp
next
  case (Cons w ws)
  have "\<bar>a + sum_list (take (Suc 0) (w # ws))\<bar> \<le> 9007199254740992"
    using Cons.prems [rule_format, of "Suc 0"] by simp
  then have one: "js_add (Num a) (Num w) = Num (a + w)"
    by (simp add: js_add_Num round_double_safe)
  have "\<forall>i\<le>length ws. \<bar>(a + w) + sum_list (take i ws)\<bar> \<le> 9007199254740992"
  proof (intro allI impI)
    fix i
    assume "i \<le> length ws"
    then have "\<bar>a + sum_list (take (Suc i) (w # ws))\<bar> \<le> 9007199254740992"
      using Cons.prems [rule_format, of "Suc i"] by simp
    then show "\<bar>(a + w) + sum_list (take i ws)\<bar> \<le> 9007199254740992"
      by (simp add: add.assoc)
  qed
  then have "foldl js_add (Num (a + w)) (map Num ws) = Num ((a + w) + sum_list ws)"
    by (rule Cons.IH)
  then show ?case
    by (simp add: one add.assoc)
qed

lemma toMeta_positions:
  "positions (toMeta vis) =
     map (\<lambda>i. foldl js_add (Num 0) (map (\<lambda>c. getProp c ''width'') (take i vis)))
       [0..<length vis]"
  by (simp add: toMeta_def toMetaWith_eq)

lemma toMeta_totalWidth:
  "totalWidth (toMeta vis) = foldl js_add (Num 0) (map (\<lambda>c. getProp c ''width'') vis)"
  by (simp add: toMeta_def toMetaWith_eq)

lemma length_toMeta_positions: "length (positions (toMeta vis)) = length vis"
  by (simp add: toMeta_positions)

lemma array_read_in_range:
  "0 \<le> i \<Longrightarrow> nat i < length xs \<Longrightarrow> array_read xs i = Some (xs ! nat i)"
  by (simp add: array_read_def nat_less_iff)

lemma array_read_minus_one: "array_read xs (- 1) = None"
  by (simp add: array_read_def)

lemma array_write_in_range:
  "0 \<le> i \<Longrightarrow> nat i < length xs \<Longrightarrow> array_write xs i v = xs[nat i := v]"
  by (simp add: array_write_def nat_less_iff)

lemma array_write_minus_one: "array_write xs (- 1) v = xs"
  by (simp add: array_write_def)

section \<open>Read accessors of the column API\<close>

text \<open>
  C9. \<open>getColumnIndex\<close> returns \<open>-1\<close> exactly when no visible column has the field
  identifier, which is the case when every column of that identifier is hidden or
  there is none; otherwise it returns the position of the first visible column with
  that identifier. \<open>getColumnPosition\<close> returns \<^verbatim>\<open>undefined\<close> when the index is \<open>-1\<close>,
  and \<open>positions ! index\<close> otherwise.
\<close>

theorem getColumnIndex_getColumnPosition:
  "(getColumnIndex h field = - 1) =
     (\<forall>c\<in>set (visible (stateRef h)). getProp c ''field'' \<noteq> Str field) \<and>
   (getColumnIndex h field = - 1 \<longrightarrow> getColumnPosition h field = Undef) \<and>
   (getColumnIndex h field \<noteq> - 1 \<longrightarrow>
      0 \<le> getColumnIndex h field \<and>
      nat (getColumnIndex h field) < length (visible (stateRef h)) \<and>
      getProp (visible (stateRef h) ! nat (getColumnIndex h field)) ''field'' = Str field \<and>
      (\<forall>j<nat (getColumnIndex h field).
         getProp (visible (stateRef h) ! j) ''field'' \<noteq> Str field)) \<and>
   (getColumnIndex h field \<noteq> - 1 \<and> meta (stateRef h) = toMeta (visible (stateRef h)) \<longrightarrow>
      getColumnPosition h field =
        positions (meta (stateRef h)) ! nat (getColumnIndex h field)) \<and>
   (visible (stateRef h) = filterVisible (all (stateRef h)) \<and>
    (\<forall>c\<in>set (all (stateRef h)).
       getProp c ''field'' = Str field \<longrightarrow> truthy (getProp c ''hide'')) \<longrightarrow>
      getColumnIndex h field = - 1)"
proof (intro conjI impI)
  show none: "(getColumnIndex h field = - 1) =
     (\<forall>c\<in>set (visible (stateRef h)). getProp c ''field'' \<noteq> Str field)"
    by (simp add: getColumnIndex_def findIndex_none)
  show "getColumnPosition h field = Undef" if "getColumnIndex h field = - 1"
    using that by (simp add: getColumnPosition_def array_read_minus_one)
  {
    assume "getColumnIndex h field \<noteq> - 1"
    then have nn: "0 \<le> findIndex (\<lambda>c. strict_eq (getProp c ''field'') (Str field))
                        (visible (stateRef h))"
      using findIndex_cases [of "\<lambda>c. strict_eq (getProp c ''field'') (Str field)"
              "visible (stateRef h)"]
      by (auto simp: getColumnIndex_def)
    note f = findIndex_found [OF nn]
    show "0 \<le> getColumnIndex h field" using nn by (simp add: getColumnIndex_def)
    show "nat (getColumnIndex h field) < length (visible (stateRef h))"
      using f(1) by (simp add: getColumnIndex_def)
    show "getProp (visible (stateRef h) ! nat (getColumnIndex h field)) ''field'' = Str field"
      using f(2) by (simp add: getColumnIndex_def)
    show "\<forall>j<nat (getColumnIndex h field).
         getProp (visible (stateRef h) ! j) ''field'' \<noteq> Str field"
      using f(3) by (simp add: getColumnIndex_def)
  }
  {
    assume a: "getColumnIndex h field \<noteq> - 1 \<and> meta (stateRef h) = toMeta (visible (stateRef h))"
    then have nn: "0 \<le> findIndex (\<lambda>c. strict_eq (getProp c ''field'') (Str field))
                        (visible (stateRef h))"
      using findIndex_cases [of "\<lambda>c. strict_eq (getProp c ''field'') (Str field)"
              "visible (stateRef h)"]
      by (auto simp: getColumnIndex_def)
    note f = findIndex_found [OF nn]
    have "length (positions (meta (stateRef h))) = length (visible (stateRef h))"
      using a by (simp add: length_toMeta_positions)
    then show "getColumnPosition h field =
        positions (meta (stateRef h)) ! nat (getColumnIndex h field)"
      using nn f(1) by (simp add: getColumnPosition_def getColumnIndex_def array_read_in_range)
  }
  {
    assume a: "visible (stateRef h) = filterVisible (all (stateRef h)) \<and>
      (\<forall>c\<in>set (all (stateRef h)).
         getProp c ''field'' = Str field \<longrightarrow> truthy (getProp c ''hide''))"
    then show "getColumnIndex h field = - 1"
      by (auto simp: none filterVisible_def)
  }
qed

lemma exampleHook_state:
  "visible (stateRef exampleHook) =
     [[''field'' \<mapsto> Str ''a'', ''width'' \<mapsto> Num 100],
      [''field'' \<mapsto> Str ''c'', ''width'' \<mapsto> Num 80]]"
  "all (stateRef exampleHook) =
     [[''field'' \<mapsto> Str ''a'', ''width'' \<mapsto> Num 100],
      [''field'' \<mapsto> Str ''b'', ''width'' \<mapsto> Num 50, ''hide'' \<mapsto> Bool True],
      [''field'' \<mapsto> Str ''c'', ''width'' \<mapsto> Num 80]]"
  "meta (stateRef exampleHook) = \<lparr> totalWidth = Num 180, positions = [Num 0, Num 100] \<rparr>"
  by (simp_all add: exampleHook_def exampleState_def)

lemma exampleState_derived: "derivedConsistent exampleState"
  by (simp add: derivedConsistent_def exampleState_def filterVisible_def getProp_def
        loose_null_def toMeta_def toMetaWith_def toMeta_step_def js_add_def round_double_def)

theorem getColumnIndex_getColumnPosition_witness:
  "visible (stateRef exampleHook) = filterVisible (all (stateRef exampleHook)) \<and>
   meta (stateRef exampleHook) = toMeta (visible (stateRef exampleHook)) \<and>
   \<not> (\<exists>c\<in>set (all (stateRef exampleHook)).
         getProp c ''field'' = Str ''b'' \<and> \<not> truthy (getProp c ''hide'')) \<and>
   getColumnIndex exampleHook ''b'' = - 1 \<and>
   getColumnPosition exampleHook ''b'' = Undef \<and>
   getColumnIndex exampleHook ''c'' = 1 \<and>
   getColumnPosition exampleHook ''c'' = Num 100"
proof -
  have d: "visible (stateRef exampleHook) = filterVisible (all (stateRef exampleHook))"
          "meta (stateRef exampleHook) = toMeta (visible (stateRef exampleHook))"
    using exampleState_derived by (simp_all add: derivedConsistent_def exampleHook_def)
  have hid: "\<forall>c\<in>set (all (stateRef exampleHook)).
      getProp c ''field'' = Str ''b'' \<longrightarrow> truthy (getProp c ''hide'')"
    by (simp add: exampleHook_state getProp_def)
  then have hid': "\<not> (\<exists>c\<in>set (all (stateRef exampleHook)).
         getProp c ''field'' = Str ''b'' \<and> \<not> truthy (getProp c ''hide''))"
    by blast
  note b = getColumnIndex_getColumnPosition [of exampleHook "''b''"]
  note c = getColumnIndex_getColumnPosition [of exampleHook "''c''"]
  have ib: "getColumnIndex exampleHook ''b'' = - 1" using b d hid by blast
  have pb: "getColumnPosition exampleHook ''b'' = Undef" using b ib by blast
  have ic: "getColumnIndex exampleHook ''c'' = 1"
    by (simp add: getColumnIndex_def exampleHook_state findIndex_def getProp_def)
  have "getColumnPosition exampleHook ''c'' =
        positions (meta (stateRef exampleHook)) ! nat (getColumnIndex exampleHook ''c'')"
    using c d ic by simp
  then have pc: "getColumnPosition exampleHook ''c'' = Num 100"
    by (simp add: ic exampleHook_state)
  show ?thesis using d hid' ib pb ic pc by blast
qed

section \<open>Patch updates\<close>

lemma applyColumnUpdate_found:
  assumes "0 \<le> patchIndex cols p"
  shows "applyColumnUpdate p (cols, lk) =
           (cols[nat (patchIndex cols p) := cols ! nat (patchIndex cols p) ++ p],
            lk(lookupKey p \<mapsto> cols ! nat (patchIndex cols p) ++ p))"
  using assms findIndex_found(1) [OF assms]
  by (simp add: applyColumnUpdate_def Let_def array_read_in_range array_write_in_range)

lemma applyColumnUpdate_missing:
  assumes "patchIndex cols p = - 1"
  shows "applyColumnUpdate p (cols, lk) = (cols, lk(lookupKey p \<mapsto> p))"
  using assms
  by (simp add: applyColumnUpdate_def Let_def array_read_minus_one array_write_minus_one)

lemma merge_twice: "(c ++ p) ++ p = c ++ (p :: ColDef)"
  by (rule ext) (simp add: map_add_def split: option.splits)

lemma getProp_merge_field:
  assumes "strict_eq (getProp c ''field'') (getProp p ''field'')"
  shows "getProp (c ++ p) ''field'' = getProp c ''field''"
proof (cases "p ''field''")
  case None
  then show ?thesis by (simp add: getProp_def map_add_def)
next
  case (Some v)
  then show ?thesis
    using strict_eq_imp_eq [OF assms] by (simp add: getProp_def map_add_def)
qed

lemma applyColumnUpdate_fields:
  "map (\<lambda>c. getProp c ''field'') (fst (applyColumnUpdate p (cols, lk))) =
   map (\<lambda>c. getProp c ''field'') cols"
proof (cases "0 \<le> patchIndex cols p")
  case True
  note f = findIndex_found [OF True]
  have "getProp (cols ! nat (patchIndex cols p) ++ p) ''field'' =
        getProp (cols ! nat (patchIndex cols p)) ''field''"
    using f(2) by (rule getProp_merge_field)
  then show ?thesis
    using f(1) by (simp add: applyColumnUpdate_found [OF True] map_update list_update_same_conv)
next
  case False
  then have "patchIndex cols p = - 1"
    using findIndex_cases [of _ cols] by auto
  then show ?thesis by (simp add: applyColumnUpdate_missing)
qed

lemma applyColumnUpdate_length:
  "length (fst (applyColumnUpdate p (cols, lk))) = length cols"
  using arg_cong [OF applyColumnUpdate_fields [of p cols lk], of length] by simp

lemma patchIndex_fields:
  "map (\<lambda>c. getProp c ''field'') cols' = map (\<lambda>c. getProp c ''field'') cols \<Longrightarrow>
   patchIndex cols' q = patchIndex cols q"
proof (rule findIndex_cong_map)
  assume a: "map (\<lambda>c. getProp c ''field'') cols' = map (\<lambda>c. getProp c ''field'') cols"
  have "map (\<lambda>c. strict_eq (getProp c ''field'') (getProp q ''field'')) xs =
        map (\<lambda>v. strict_eq v (getProp q ''field'')) (map (\<lambda>c. getProp c ''field'') xs)" for xs
    by simp
  then show "map (\<lambda>c. strict_eq (getProp c ''field'') (getProp q ''field'')) cols' =
             map (\<lambda>c. strict_eq (getProp c ''field'') (getProp q ''field'')) cols"
    using a by (simp only:)
qed

lemma fold_applyColumnUpdate_fields:
  "map (\<lambda>c. getProp c ''field'') (fst (fold applyColumnUpdate ps st)) =
   map (\<lambda>c. getProp c ''field'') (fst st)"
proof (induction ps arbitrary: st)
  case Nil
  show ?case by simp
next
  case (Cons p ps)
  obtain cols lk where st: "st = (cols, lk)" by (cases st)
  show ?case by (simp add: Cons.IH st applyColumnUpdate_fields)
qed

lemma fold_applyColumnUpdate_length:
  "length (fst (fold applyColumnUpdate ps st)) = length (fst st)"
  using arg_cong [OF fold_applyColumnUpdate_fields [of ps st], of length] by simp

lemma getUpdatedColumnState_sel:
  "all (getUpdatedColumnState s ps) = fst (fold applyColumnUpdate ps (all s, lookup s))"
  "lookup (getUpdatedColumnState s ps) = snd (fold applyColumnUpdate ps (all s, lookup s))"
  "visible (getUpdatedColumnState s ps) = filterVisible (all (getUpdatedColumnState s ps))"
  "meta (getUpdatedColumnState s ps) = toMeta (visible (getUpdatedColumnState s ps))"
  "hasColumns (getUpdatedColumnState s ps) = (0 < length (all (getUpdatedColumnState s ps)))"
  "hasVisibleColumns (getUpdatedColumnState s ps) =
     (0 < length (visible (getUpdatedColumnState s ps)))"
  by (simp_all add: getUpdatedColumnState_def Let_def split: prod.splits)

lemma getUpdatedColumnState_more:
  "InternalColumns.more (getUpdatedColumnState s ps) = InternalColumns.more s"
  by (simp add: getUpdatedColumnState_def Let_def split: prod.splits)

lemma getUpdatedColumnState_single_found:
  assumes "0 \<le> patchIndex (all s) p"
  shows "all (getUpdatedColumnState s [p]) =
           (all s)[nat (patchIndex (all s) p) := all s ! nat (patchIndex (all s) p) ++ p]"
    and "lookup (getUpdatedColumnState s [p]) =
           (lookup s)(lookupKey p \<mapsto> all s ! nat (patchIndex (all s) p) ++ p)"
  by (simp_all add: getUpdatedColumnState_sel applyColumnUpdate_found [OF assms])

lemma getUpdatedColumnState_twice:
  assumes "0 \<le> patchIndex (all s) p"
  shows "getUpdatedColumnState (getUpdatedColumnState s [p]) [p] = getUpdatedColumnState s [p]"
proof -
  let ?i = "nat (patchIndex (all s) p)"
  let ?s1 = "getUpdatedColumnState s [p]"
  note f = findIndex_found [OF assms]
  have a1: "all ?s1 = (all s)[?i := all s ! ?i ++ p]"
    and l1: "lookup ?s1 = (lookup s)(lookupKey p \<mapsto> all s ! ?i ++ p)"
    using getUpdatedColumnState_single_found [OF assms] by simp_all
  have "map (\<lambda>c. getProp c ''field'') (all ?s1) = map (\<lambda>c. getProp c ''field'') (all s)"
    using fold_applyColumnUpdate_fields [of "[p]" "(all s, lookup s)"]
    by (simp add: getUpdatedColumnState_sel)
  then have idx: "patchIndex (all ?s1) p = patchIndex (all s) p"
    by (rule patchIndex_fields)
  then have nn: "0 \<le> patchIndex (all ?s1) p" using assms by simp
  have m: "all ?s1 ! ?i ++ p = all s ! ?i ++ p"
    using f(1) by (simp add: a1 merge_twice)
  have "all (getUpdatedColumnState ?s1 [p]) = (all ?s1)[?i := all s ! ?i ++ p]"
    using getUpdatedColumnState_single_found(1) [OF nn] by (simp only: idx m)
  then have a2: "all (getUpdatedColumnState ?s1 [p]) = all ?s1"
    by (simp add: a1)
  have "lookup (getUpdatedColumnState ?s1 [p]) =
          (lookup ?s1)(lookupKey p \<mapsto> all s ! ?i ++ p)"
    using getUpdatedColumnState_single_found(2) [OF nn] by (simp only: idx m)
  then have l2: "lookup (getUpdatedColumnState ?s1 [p]) = lookup ?s1"
    by (simp add: l1)
  show ?thesis
    by (rule InternalColumns.equality)
       (simp_all add: a2 l2 getUpdatedColumnState_sel(3-6) getUpdatedColumnState_more)
qed


lemma getUpdatedColumnState_twice_missing:
  assumes "patchIndex (all s) p = - 1"
  shows "getUpdatedColumnState (getUpdatedColumnState s [p]) [p] = getUpdatedColumnState s [p]"
proof -
  let ?s1 = "getUpdatedColumnState s [p]"
  have a1: "all ?s1 = all s" and l1: "lookup ?s1 = (lookup s)(lookupKey p \<mapsto> p)"
    by (simp_all add: getUpdatedColumnState_sel applyColumnUpdate_missing [OF assms])
  have m: "patchIndex (all ?s1) p = - 1" using assms by (simp add: a1)
  have a2: "all (getUpdatedColumnState ?s1 [p]) = all ?s1"
    by (simp add: getUpdatedColumnState_sel(1) [of ?s1] applyColumnUpdate_missing [OF m])
  have l2: "lookup (getUpdatedColumnState ?s1 [p]) = lookup ?s1"
    by (simp add: getUpdatedColumnState_sel(2) [of ?s1] applyColumnUpdate_missing [OF m] l1)
  show ?thesis
    by (rule InternalColumns.equality)
       (simp_all add: a2 l2 getUpdatedColumnState_sel(3-6) getUpdatedColumnState_more)
qed

lemma updateColumn_eq:
  "updateColumn apiRef p h =
     h\<lparr> internalColumns := getUpdatedColumnState (stateRef h) [p],
        stateRef := getUpdatedColumnState (stateRef h) [p] \<rparr>"
  by (simp add: updateColumn_def updateState_def Let_def)

text \<open>
  C10. Applying the same patch twice in succession gives the column state that applying
  it once gives, on the state itself and through \<open>updateColumn\<close> on the hook. This
  holds for every patch, also for one whose field names no column.
\<close>

theorem patch_update_idempotent:
  "getUpdatedColumnState (getUpdatedColumnState s [p]) [p] = getUpdatedColumnState s [p] \<and>
   updateColumn apiRef p (updateColumn apiRef p h) = updateColumn apiRef p h"
proof
  show twice: "getUpdatedColumnState (getUpdatedColumnState s [p]) [p] =
      getUpdatedColumnState s [p]" for s
    using findIndex_cases [of "\<lambda>c. strict_eq (getProp c ''field'') (getProp p ''field'')" "all s"]
      getUpdatedColumnState_twice [where s = s and p = p]
      getUpdatedColumnState_twice_missing [where s = s and p = p]
    by blast
  show "updateColumn apiRef p (updateColumn apiRef p h) = updateColumn apiRef p h"
    by (simp add: updateColumn_eq twice)
qed

lemma snd_applyColumnUpdate_other:
  "k \<noteq> lookupKey p \<Longrightarrow> snd (applyColumnUpdate p (cols, lk)) k = lk k"
  by (simp add: applyColumnUpdate_def Let_def)

lemma fst_applyColumnUpdate_other:
  assumes "patchIndex cols p \<noteq> int j"
  shows "fst (applyColumnUpdate p (cols, lk)) ! j = cols ! j"
proof (cases "0 \<le> patchIndex cols p")
  case True
  then have "nat (patchIndex cols p) \<noteq> j" using assms by auto
  then show ?thesis by (simp add: applyColumnUpdate_found [OF True])
next
  case False
  then have "patchIndex cols p = - 1"
    using findIndex_cases [of _ cols] by auto
  then show ?thesis by (simp add: applyColumnUpdate_missing)
qed

lemma fold_applyColumnUpdate_untouched:
  "\<forall>p\<in>set ps. patchIndex cols p \<noteq> int j \<Longrightarrow>
   fst (fold applyColumnUpdate ps (cols, lk)) ! j = cols ! j"
proof (induction ps arbitrary: cols lk)
  case Nil
  show ?case by simp
next
  case (Cons p ps)
  obtain cols1 lk1 where st: "applyColumnUpdate p (cols, lk) = (cols1, lk1)"
    by (cases "applyColumnUpdate p (cols, lk)")
  have c1: "cols1 = fst (applyColumnUpdate p (cols, lk))" by (simp add: st)
  have fields: "map (\<lambda>c. getProp c ''field'') cols1 = map (\<lambda>c. getProp c ''field'') cols"
    by (simp add: c1 applyColumnUpdate_fields)
  have "\<forall>q\<in>set ps. patchIndex cols1 q \<noteq> int j"
    using Cons.prems by (simp add: patchIndex_fields [OF fields])
  then have "fst (fold applyColumnUpdate ps (cols1, lk1)) ! j = cols1 ! j"
    by (rule Cons.IH)
  moreover have "cols1 ! j = cols ! j"
    using Cons.prems by (simp add: c1 fst_applyColumnUpdate_other)
  ultimately show ?case by (simp add: st)
qed

lemma fold_applyColumnUpdate_lookup_other:
  "k \<notin> lookupKey ` set ps \<Longrightarrow> snd (fold applyColumnUpdate ps (cols, lk)) k = lk k"
proof (induction ps arbitrary: cols lk)
  case Nil
  show ?case by simp
next
  case (Cons p ps)
  obtain cols1 lk1 where st: "applyColumnUpdate p (cols, lk) = (cols1, lk1)"
    by (cases "applyColumnUpdate p (cols, lk)")
  have "lk1 k = lk k"
    using Cons.prems snd_applyColumnUpdate_other [of k p cols lk] by (simp add: st)
  moreover have "snd (fold applyColumnUpdate ps (cols1, lk1)) k = lk1 k"
    using Cons.prems by (intro Cons.IH) auto
  ultimately show ?case by (simp add: st)
qed

text \<open>
  C6. A patch whose field identifier is present replaces the first column of that
  identifier by the merge of that column with the patch, at the same position, and
  binds the identifier to the merged column in the lookup map; every other position of
  the collection and every other key of the lookup map is unchanged. For a list of
  patches, a column that is the target of none of them and a key that none of them
  names are unchanged, and the collection keeps its length. The visible columns and
  the metadata are those derived from the updated collection.
\<close>

theorem patch_update_frame:
  "(0 \<le> patchIndex (all s) p \<longrightarrow>
      nat (patchIndex (all s) p) < length (all s) \<and>
      strict_eq (getProp (all s ! nat (patchIndex (all s) p)) ''field'') (getProp p ''field'') \<and>
      all (getUpdatedColumnState s [p]) ! nat (patchIndex (all s) p) =
        all s ! nat (patchIndex (all s) p) ++ p \<and>
      (\<forall>j<length (all s). j \<noteq> nat (patchIndex (all s) p) \<longrightarrow>
         all (getUpdatedColumnState s [p]) ! j = all s ! j) \<and>
      lookup (getUpdatedColumnState s [p]) (lookupKey p) =
        Some (all s ! nat (patchIndex (all s) p) ++ p) \<and>
      (\<forall>k. k \<noteq> lookupKey p \<longrightarrow> lookup (getUpdatedColumnState s [p]) k = lookup s k)) \<and>
   (\<forall>j<length (all s). (\<forall>q\<in>set ps. patchIndex (all s) q \<noteq> int j) \<longrightarrow>
      all (getUpdatedColumnState s ps) ! j = all s ! j) \<and>
   (\<forall>k. k \<notin> lookupKey ` set ps \<longrightarrow> lookup (getUpdatedColumnState s ps) k = lookup s k) \<and>
   length (all (getUpdatedColumnState s ps)) = length (all s) \<and>
   visible (getUpdatedColumnState s ps) = filterVisible (all (getUpdatedColumnState s ps)) \<and>
   meta (getUpdatedColumnState s ps) = toMeta (visible (getUpdatedColumnState s ps))"
proof (intro conjI impI allI)
  show "lookup (getUpdatedColumnState s ps) k = lookup s k"
    if "k \<notin> lookupKey ` set ps" for k
    using that by (simp add: getUpdatedColumnState_sel fold_applyColumnUpdate_lookup_other)
  show "length (all (getUpdatedColumnState s ps)) = length (all s)"
    by (simp add: getUpdatedColumnState_sel fold_applyColumnUpdate_length)
  show "visible (getUpdatedColumnState s ps) = filterVisible (all (getUpdatedColumnState s ps))"
    by (rule getUpdatedColumnState_sel)
  show "meta (getUpdatedColumnState s ps) = toMeta (visible (getUpdatedColumnState s ps))"
    by (rule getUpdatedColumnState_sel)
  show "all (getUpdatedColumnState s ps) ! j = all s ! j"
    if "j < length (all s)" "\<forall>q\<in>set ps. patchIndex (all s) q \<noteq> int j" for j
    using that by (simp add: getUpdatedColumnState_sel fold_applyColumnUpdate_untouched)
next
  assume nn: "0 \<le> patchIndex (all s) p"
  note f = findIndex_found [OF nn]
  note u = getUpdatedColumnState_single_found [OF nn]
  show "nat (patchIndex (all s) p) < length (all s)" by (rule f(1))
  show "strict_eq (getProp (all s ! nat (patchIndex (all s) p)) ''field'') (getProp p ''field'')"
    by (rule f(2))
  show "all (getUpdatedColumnState s [p]) ! nat (patchIndex (all s) p) =
        all s ! nat (patchIndex (all s) p) ++ p"
    using f(1) by (simp add: u)
  show "lookup (getUpdatedColumnState s [p]) (lookupKey p) =
        Some (all s ! nat (patchIndex (all s) p) ++ p)"
    by (simp add: u)
  show "lookup (getUpdatedColumnState s [p]) k = lookup s k" if "k \<noteq> lookupKey p" for k
    using that by (simp add: u)
  show "all (getUpdatedColumnState s [p]) ! j = all s ! j"
    if "j < length (all s)" "j \<noteq> nat (patchIndex (all s) p)" for j
    using that by (simp add: u)
qed


theorem patch_update_frame_witness:
  "0 \<le> patchIndex (all exampleState) [''field'' \<mapsto> Str ''b'', ''hide'' \<mapsto> Bool False] \<and>
   (0::nat) < length (all exampleState) \<and>
   patchIndex (all exampleState) [''field'' \<mapsto> Str ''b'', ''hide'' \<mapsto> Bool False] \<noteq> int 0 \<and>
   ''a'' \<notin> lookupKey ` set [[''field'' \<mapsto> Str ''b'', ''hide'' \<mapsto> Bool False]] \<and>
   all (getUpdatedColumnState exampleState
          [[''field'' \<mapsto> Str ''b'', ''hide'' \<mapsto> Bool False]]) ! 1 =
     [''field'' \<mapsto> Str ''b'', ''width'' \<mapsto> Num 50, ''hide'' \<mapsto> Bool False] \<and>
   all (getUpdatedColumnState exampleState
          [[''field'' \<mapsto> Str ''b'', ''hide'' \<mapsto> Bool False]]) ! 0 =
     all exampleState ! 0 \<and>
   lookup (getUpdatedColumnState exampleState
          [[''field'' \<mapsto> Str ''b'', ''hide'' \<mapsto> Bool False]]) ''a'' =
     lookup exampleState ''a''"
proof -
  let ?p = "[''field'' \<mapsto> Str ''b'', ''hide'' \<mapsto> Bool False]"
  have idx: "patchIndex (all exampleState) ?p = 1"
    by (simp add: exampleState_def findIndex_def getProp_def strict_eq_def)
  have len: "length (all exampleState) = 3" by (simp add: exampleState_def)
  have key: "lookupKey ?p = ''b''" by (simp add: getProp_def)
  have m: "all exampleState ! 1 ++ ?p =
           [''field'' \<mapsto> Str ''b'', ''width'' \<mapsto> Num 50, ''hide'' \<mapsto> Bool False]"
    by (rule ext) (simp add: exampleState_def map_add_def)
  note t = patch_update_frame [where s = exampleState and p = ?p and ps = "[?p]"]
  have one: "all (getUpdatedColumnState exampleState [?p]) ! 1 = all exampleState ! 1 ++ ?p"
    using t idx by simp
  have zero: "all (getUpdatedColumnState exampleState [?p]) ! 0 = all exampleState ! 0"
    using t idx len by simp
  have lk: "lookup (getUpdatedColumnState exampleState [?p]) ''a'' = lookup exampleState ''a''"
    using t key by simp
  have one': "all (getUpdatedColumnState exampleState [?p]) ! 1 =
      [''field'' \<mapsto> Str ''b'', ''width'' \<mapsto> Num 50, ''hide'' \<mapsto> Bool False]"
    using one m by (simp only:)
  show ?thesis
    using idx len key one' zero lk by simp
qed

section \<open>The lookup map under patch updates\<close>







section \<open>Transitions of the hook\<close>



lemma updateState_sel:
  "stateRef (updateState apiRef newState emit h) = newState"
  "internalColumns (updateState apiRef newState emit h) = newState"
  "sortedColFieldsRef (updateState apiRef newState emit h) = sortedColFieldsRef h"
  "rafUpdates (updateState apiRef newState emit h) = rafUpdates h"
  "emitted (updateState apiRef newState emit h) =
     (if apiRef \<noteq> None \<and> emit then emitted h @ [COLUMNS_UPDATED (all newState)]
      else emitted h)"
  by (simp_all add: updateState_def Let_def)

lemma fold_clearPatch:
  "fold (\<lambda>field updatedCols. updatedCols @ [clearPatch field]) fs acc = acc @ map clearPatch fs"
  by (induction fs arbitrary: acc) simp_all

lemma fold_pushSortPatch:
  "fold (pushSortPatch n) ims (fs, us) =
     (fs @ map (\<lambda>im. colId (snd im)) ims, us @ map (\<lambda>im. sortPatch n (fst im) (snd im)) ims)"
proof (induction ims arbitrary: fs us)
  case Nil
  show ?case by simp
next
  case (Cons im ims)
  have step: "pushSortPatch n im (fs, us) =
      (fs @ [colId (snd im)], us @ [sortPatch n (fst im) (snd im)])"
    by (cases im) (simp add: pushSortPatch_def)
  show ?case by (simp only: fold_simps step Cons.IH) simp
qed

lemma map_snd_enumerate: "map (\<lambda>im. f (snd im)) (enumerate k xs) = map f xs"
  by (induction xs arbitrary: k) simp_all

lemma onSortedColumns_eq:
  "onSortedColumns apiRef sortModel h =
     (if sortPatches (sortedColFieldsRef h) sortModel = []
      then h\<lparr> sortedColFieldsRef := map colId sortModel, rafUpdates := rafUpdates h + 1 \<rparr>
      else h\<lparr> sortedColFieldsRef := map colId sortModel,
              internalColumns :=
                getUpdatedColumnState (stateRef h) (sortPatches (sortedColFieldsRef h) sortModel),
              stateRef :=
                getUpdatedColumnState (stateRef h) (sortPatches (sortedColFieldsRef h) sortModel),
              rafUpdates := rafUpdates h + 1 \<rparr>)"
  by (simp add: onSortedColumns_def fold_clearPatch fold_pushSortPatch Let_def
        map_snd_enumerate sortPatches_def updateColumns_def updateState_def)

lemma updateColumns_eq:
  "updateColumns apiRef ps h =
     h\<lparr> internalColumns := getUpdatedColumnState (stateRef h) ps,
        stateRef := getUpdatedColumnState (stateRef h) ps \<rparr>"
  by (simp add: updateColumns_def updateState_def Let_def)

lemma columnsChanged_sel:
  "stateRef (columnsChanged G cb options columns apiRef h) = resetState G cb columns options apiRef"
  "internalColumns (columnsChanged G cb options columns apiRef h) =
     resetState G cb columns options apiRef"
  "sortedColFieldsRef (columnsChanged G cb options columns apiRef h) = sortedColFieldsRef h"
  "emitted (columnsChanged G cb options columns apiRef h) =
     (if apiRef \<noteq> None
      then emitted h @ [COLUMNS_UPDATED (all (resetState G cb columns options apiRef))]
      else emitted h)"
  by (simp_all add: columnsChanged_def Let_def updateState_sel)

lemma onSortedColumns_sel:
  "sortedColFieldsRef (onSortedColumns apiRef sortModel h) = map colId sortModel"
  "emitted (onSortedColumns apiRef sortModel h) = emitted h"
  "rafUpdates (onSortedColumns apiRef sortModel h) = rafUpdates h + 1"
  "stateRef (onSortedColumns apiRef sortModel h) =
     (if sortPatches (sortedColFieldsRef h) sortModel = [] then stateRef h
      else getUpdatedColumnState (stateRef h) (sortPatches (sortedColFieldsRef h) sortModel))"
  "internalColumns (onSortedColumns apiRef sortModel h) =
     (if sortPatches (sortedColFieldsRef h) sortModel = [] then internalColumns h
      else getUpdatedColumnState (stateRef h) (sortPatches (sortedColFieldsRef h) sortModel))"
  by (simp_all add: onSortedColumns_eq)






text \<open>
  C8 (as amended). When the columns or the options change, the recomputed state is
  committed, and the columns-updated event carrying the full hydrated column list is
  emitted if the host API handle is attached; with no handle attached the state is
  committed with no event. The first render, \<open>updateColumn\<close>, \<open>updateColumns\<close> and
  the sort-model reaction emit nothing.
\<close>

theorem columns_updated_emission:
  "emitted (columnsChanged G cb options columns (Some api) h) =
     emitted h @ [COLUMNS_UPDATED (hydrateColumns G cb columns options (Some api))] \<and>
   stateRef (columnsChanged G cb options columns apiRef h) =
     resetState G cb columns options apiRef \<and>
   emitted (columnsChanged G cb options columns None h) = emitted h \<and>
   emitted (updateColumn apiRef p h) = emitted h \<and>
   emitted (updateColumns apiRef ps h) = emitted h \<and>
   emitted (onSortedColumns apiRef sortModel h) = emitted h \<and>
   emitted (useColumns_init G cb options columns apiRef) = []"
  by (simp add: columnsChanged_sel updateColumn_eq updateColumns_eq onSortedColumns_sel
        useColumns_init_def Let_def)
     (simp add: resetState_def Let_def)

text \<open>
  C8 as stated fails: with no API handle attached, a change of the columns recomputes
  and commits the state, and no event is emitted.
\<close>

theorem columns_updated_emission_counterexample:
  "stateRef (columnsChanged exampleGetColDef exampleCheckboxColDef \<lparr> checkboxSelection = False \<rparr>
      [[''field'' \<mapsto> Str ''a'']] None
      (useColumns_init exampleGetColDef exampleCheckboxColDef \<lparr> checkboxSelection = False \<rparr>
         [] None)) =
     resetState exampleGetColDef exampleCheckboxColDef [[''field'' \<mapsto> Str ''a'']]
       \<lparr> checkboxSelection = False \<rparr> None \<and>
   all (stateRef (columnsChanged exampleGetColDef exampleCheckboxColDef
      \<lparr> checkboxSelection = False \<rparr> [[''field'' \<mapsto> Str ''a'']] None
      (useColumns_init exampleGetColDef exampleCheckboxColDef \<lparr> checkboxSelection = False \<rparr>
         [] None))) \<noteq>
   all (stateRef (useColumns_init exampleGetColDef exampleCheckboxColDef
      \<lparr> checkboxSelection = False \<rparr> [] None)) \<and>
   emitted (columnsChanged exampleGetColDef exampleCheckboxColDef \<lparr> checkboxSelection = False \<rparr>
      [[''field'' \<mapsto> Str ''a'']] None
      (useColumns_init exampleGetColDef exampleCheckboxColDef \<lparr> checkboxSelection = False \<rparr>
         [] None)) = []"
  by (simp add: columnsChanged_sel useColumns_init_def Let_def)
     (simp add: resetState_def hydrateColumns_def mapColumns_def assignSortIndexes_def
        applySortModel_def sortedCols_def Let_def)

section \<open>The sort-model reaction\<close>







lemma nth_enumerate_0: "i < length xs \<Longrightarrow> enumerate 0 xs ! i = (i, xs ! i)"
  by (simp add: nth_enumerate_eq)







section \<open>Hydration and the sort annotation\<close>

lemma sortAnnotated_refl: "sortAnnotated c c"
  by (simp add: sortAnnotated_def)

lemma sortAnnotated_trans: "sortAnnotated a b \<Longrightarrow> sortAnnotated b c \<Longrightarrow> sortAnnotated a c"
  by (simp add: sortAnnotated_def)

lemma sortAnnotated_upd_index: "sortAnnotated c (c(''sortIndex'' \<mapsto> v))"
  by (simp add: sortAnnotated_def)

lemma sortAnnotated_upd_both:
  "sortAnnotated c (c(''sortDirection'' \<mapsto> d, ''sortIndex'' \<mapsto> v))"
  by (simp add: sortAnnotated_def)

lemma sortAnnotated_getProp:
  "sortAnnotated c c' \<Longrightarrow> k \<noteq> ''sortDirection'' \<Longrightarrow> k \<noteq> ''sortIndex'' \<Longrightarrow>
   getProp c' k = getProp c k"
  by (simp add: sortAnnotated_def getProp_def)

lemma list_all2_sortAnnotated_refl: "list_all2 sortAnnotated cols cols"
  by (simp add: list_all2_refl sortAnnotated_refl)

lemma list_all2_sortAnnotated_trans:
  "list_all2 sortAnnotated a b \<Longrightarrow> list_all2 sortAnnotated b c \<Longrightarrow>
   list_all2 sortAnnotated a c"
  by (rule list_all2_trans [where ?P1.0 = sortAnnotated and ?P2.0 = sortAnnotated])
     (auto intro: sortAnnotated_trans)

lemma list_all2_sortAnnotated_update:
  "sortAnnotated (cols ! i) c' \<Longrightarrow> list_all2 sortAnnotated cols (cols[i := c'])"
proof -
  assume a: "sortAnnotated (cols ! i) c'"
  have "sortAnnotated (cols ! j) (cols[i := c'] ! j)" if "j < length cols" for j
    using that a by (cases "j = i") (simp_all add: sortAnnotated_refl)
  then show ?thesis by (simp add: list_all2_conv_all_nth)
qed

lemma setMissingSortIndex_annotated:
  "list_all2 sortAnnotated cols (setMissingSortIndex ic cols)"
  by (cases ic)
     (simp add: setMissingSortIndex_def list_all2_sortAnnotated_refl
        list_all2_sortAnnotated_update sortAnnotated_upd_index)

lemma applySortItem_annotated:
  "list_all2 sortAnnotated cols (applySortItem n ic cols)"
  by (cases ic)
     (simp add: applySortItem_def Let_def list_all2_sortAnnotated_refl
        list_all2_sortAnnotated_update sortAnnotated_upd_both)

lemma fold_annotated:
  assumes "\<And>x cols. list_all2 sortAnnotated cols (f x cols)"
  shows "list_all2 sortAnnotated cols (fold f xs cols)"
proof (induction xs arbitrary: cols)
  case Nil
  show ?case by (simp add: list_all2_sortAnnotated_refl)
next
  case (Cons x xs)
  have "list_all2 sortAnnotated cols (f x cols)" by (rule assms)
  moreover have "list_all2 sortAnnotated (f x cols) (fold f xs (f x cols))" by (rule Cons.IH)
  ultimately show ?case by (simp add: list_all2_sortAnnotated_trans)
qed

lemma assignSortIndexes_annotated:
  "list_all2 sortAnnotated cols (assignSortIndexes cols apiRef)"
  by (simp add: assignSortIndexes_def Let_def list_all2_sortAnnotated_refl
        fold_annotated setMissingSortIndex_annotated)

lemma applySortModel_annotated:
  "list_all2 sortAnnotated cols (applySortModel cols apiRef)"
  by (simp add: applySortModel_def list_all2_sortAnnotated_refl
        fold_annotated applySortItem_annotated split: option.splits)

lemma hydrateColumns_annotated:
  "list_all2 sortAnnotated (mapColumns G cb columns options)
     (hydrateColumns G cb columns options apiRef)"
  unfolding hydrateColumns_def Let_def
  by (rule list_all2_sortAnnotated_trans [OF assignSortIndexes_annotated applySortModel_annotated])

lemma length_mapColumns:
  "length (mapColumns G cb columns options) =
     length columns + (if checkboxSelection options then 1 else 0)"
  by (simp add: mapColumns_def Let_def)

lemma length_hydrateColumns:
  "length (hydrateColumns G cb columns options apiRef) =
     length columns + (if checkboxSelection options then 1 else 0)"
  using list_all2_lengthD [OF hydrateColumns_annotated [of G cb columns options apiRef]]
  by (simp add: length_mapColumns)

lemma filterVisible_annotated:
  "list_all2 sortAnnotated xs ys \<Longrightarrow>
   list_all2 sortAnnotated (filterVisible xs) (filterVisible ys)"
proof (induction rule: list_all2_induct)
  case Nil
  show ?case by (simp add: filterVisible_def)
next
  case (Cons x xs y ys)
  have "getProp y ''field'' = getProp x ''field''" "getProp y ''hide'' = getProp x ''hide''"
    using Cons.hyps(1) by (simp_all add: sortAnnotated_getProp)
  then show ?case using Cons by (simp add: filterVisible_def)
qed

lemma hydrateColumns_None:
  "hydrateColumns G cb columns options None = mapColumns G cb columns options"
  by (simp add: hydrateColumns_def assignSortIndexes_def applySortModel_def Let_def)

lemma merged_visible:
  assumes "\<not> loose_null (getProp c ''field'')" "\<not> truthy (getProp c ''hide'')"
    "\<not> truthy (getProp d ''hide'')"
  shows "\<not> loose_null (getProp (d ++ c) ''field'') \<and> \<not> truthy (getProp (d ++ c) ''hide'')"
  using assms
  by (auto simp: getProp_def map_add_def loose_null_def split: option.splits)


lemma filterVisible_merged:
  assumes "\<forall>c\<in>set columns. \<not> loose_null (getProp c ''field'') \<and> \<not> truthy (getProp c ''hide'')"
    and "\<forall>t. \<not> truthy (getProp (G t) ''hide'')"
  shows "filterVisible (map (\<lambda>c. G (getProp c ''type'') ++ c) columns) =
         map (\<lambda>c. G (getProp c ''type'') ++ c) columns"
  using assms merged_visible by (auto simp: filterVisible_def filter_id_conv)

lemma filterVisible_append: "filterVisible (xs @ ys) = filterVisible xs @ filterVisible ys"
  by (simp add: filterVisible_def)

lemma resetState_sel:
  "all (resetState G cb columns options apiRef) = hydrateColumns G cb columns options apiRef"
  "visible (resetState G cb columns options apiRef) =
     filterVisible (hydrateColumns G cb columns options apiRef)"
  "meta (resetState G cb columns options apiRef) =
     toMeta (filterVisible (hydrateColumns G cb columns options apiRef))"
  "lookup (resetState G cb columns options apiRef) =
     toLookup (hydrateColumns G cb columns options apiRef)"
  by (simp_all add: resetState_def Let_def)

lemma mapColumns_eq:
  "mapColumns G cb columns options =
     (if checkboxSelection options then [cb] else []) @
     map (\<lambda>c. G (getProp c ''type'') ++ c) columns"
  by (simp add: mapColumns_def Let_def)

text \<open>
  C5 (as amended). For columns that all have a non-null field identifier and are not
  hidden, and type defaults that hide no column, the visible collection and the
  positions of the metadata have the length of the input when checkbox selection is
  off, and one more when it is on and the checkbox-selection column is itself visible.
\<close>

theorem visible_length:
  assumes "\<forall>c\<in>set columns. \<not> loose_null (getProp c ''field'') \<and> \<not> truthy (getProp c ''hide'')"
    and "\<forall>t. \<not> truthy (getProp (G t) ''hide'')"
  shows "length (visible (resetState G cb columns options apiRef)) =
           length columns + (if checkboxSelection options then length (filterVisible [cb]) else 0) \<and>
         length (positions (meta (resetState G cb columns options apiRef))) =
           length (visible (resetState G cb columns options apiRef)) \<and>
         (\<not> checkboxSelection options \<longrightarrow>
            length (visible (resetState G cb columns options apiRef)) = length columns \<and>
            length (positions (meta (resetState G cb columns options apiRef))) = length columns) \<and>
         (checkboxSelection options \<and> \<not> loose_null (getProp cb ''field'') \<and>
          \<not> truthy (getProp cb ''hide'') \<longrightarrow>
            length (visible (resetState G cb columns options apiRef)) = length columns + 1 \<and>
            length (positions (meta (resetState G cb columns options apiRef))) =
              length columns + 1)"
proof -
  let ?s = "resetState G cb columns options apiRef"
  have "length (filterVisible (hydrateColumns G cb columns options apiRef)) =
        length (filterVisible (mapColumns G cb columns options))"
    using list_all2_lengthD [OF filterVisible_annotated [OF hydrateColumns_annotated]]
    by simp
  also have "\<dots> = length (filterVisible (if checkboxSelection options then [cb] else [])) +
                   length columns"
    by (simp only: mapColumns_eq filterVisible_append filterVisible_merged [OF assms]
          length_append length_map)
  finally have v: "length (visible ?s) =
      length columns + (if checkboxSelection options then length (filterVisible [cb]) else 0)"
    by (simp add: resetState_sel filterVisible_def)
  have p: "length (positions (meta ?s)) = length (visible ?s)"
    by (simp add: resetState_sel length_toMeta_positions)
  have cbv: "length (filterVisible [cb]) = 1"
    if "\<not> loose_null (getProp cb ''field'') \<and> \<not> truthy (getProp cb ''hide'')"
    using that by (simp add: filterVisible_def)
  show ?thesis using v p cbv by auto
qed

theorem visible_length_witness:
  "list_all (\<lambda>c. \<not> loose_null (getProp c ''field'') \<and> \<not> truthy (getProp c ''hide''))
     [[''field'' \<mapsto> Str ''a'', ''width'' \<mapsto> Num 100], [''field'' \<mapsto> Str ''c'']] \<and>
   (\<forall>t. \<not> truthy (getProp (exampleGetColDef t) ''hide'')) \<and>
   \<not> checkboxSelection \<lparr> checkboxSelection = False \<rparr> \<and>
   checkboxSelection \<lparr> checkboxSelection = True \<rparr> \<and>
   \<not> loose_null (getProp exampleCheckboxColDef ''field'') \<and>
   \<not> truthy (getProp exampleCheckboxColDef ''hide'') \<and>
   length (visible (resetState exampleGetColDef exampleCheckboxColDef
     [[''field'' \<mapsto> Str ''a'', ''width'' \<mapsto> Num 100], [''field'' \<mapsto> Str ''c'']]
     \<lparr> checkboxSelection = False \<rparr> None)) = 2 \<and>
   length (positions (meta (resetState exampleGetColDef exampleCheckboxColDef
     [[''field'' \<mapsto> Str ''a'', ''width'' \<mapsto> Num 100], [''field'' \<mapsto> Str ''c'']]
     \<lparr> checkboxSelection = True \<rparr> None))) = 3"
proof -
  let ?cols = "[[''field'' \<mapsto> Str ''a'', ''width'' \<mapsto> Num 100], [''field'' \<mapsto> Str ''c'']]"
  have h1: "\<forall>c\<in>set ?cols. \<not> loose_null (getProp c ''field'') \<and> \<not> truthy (getProp c ''hide'')"
    by (simp add: getProp_def loose_null_def)
  have h2: "\<forall>t. \<not> truthy (getProp (exampleGetColDef t) ''hide'')"
    by (simp add: exampleGetColDef_def getProp_def)
  have h3: "\<not> loose_null (getProp exampleCheckboxColDef ''field'') \<and>
            \<not> truthy (getProp exampleCheckboxColDef ''hide'')"
    by (simp add: exampleCheckboxColDef_def getProp_def loose_null_def)
  have a: "length (visible (resetState exampleGetColDef exampleCheckboxColDef ?cols
              \<lparr> checkboxSelection = False \<rparr> None)) = 2"
    using visible_length [OF h1 h2, of exampleCheckboxColDef "\<lparr> checkboxSelection = False \<rparr>" None]
    by simp
  have b: "length (positions (meta (resetState exampleGetColDef exampleCheckboxColDef ?cols
              \<lparr> checkboxSelection = True \<rparr> None))) = 3"
    using visible_length [OF h1 h2, of exampleCheckboxColDef "\<lparr> checkboxSelection = True \<rparr>" None] h3
    by simp
  show ?thesis using h1 h2 h3 a b by (simp add: list_all_iff)
qed

text \<open>
  C5 as stated fails: with checkbox selection on, one visible input column gives two
  visible columns and two positions.
\<close>

theorem visible_length_counterexample:
  "length [[''field'' \<mapsto> Str ''a'']] = 1 \<and>
   \<not> loose_null (getProp [''field'' \<mapsto> Str ''a''] ''field'') \<and>
   \<not> truthy (getProp [''field'' \<mapsto> Str ''a''] ''hide'') \<and>
   length (visible (resetState exampleGetColDef exampleCheckboxColDef
     [[''field'' \<mapsto> Str ''a'']] \<lparr> checkboxSelection = True \<rparr> None)) = 2 \<and>
   length (positions (meta (resetState exampleGetColDef exampleCheckboxColDef
     [[''field'' \<mapsto> Str ''a'']] \<lparr> checkboxSelection = True \<rparr> None))) = 2"
  by (simp add: resetState_sel hydrateColumns_None mapColumns_eq filterVisible_def
        exampleGetColDef_def exampleCheckboxColDef_def getProp_def loose_null_def
        length_toMeta_positions)


text \<open>
  C4 (as amended). Hydration returns one column for each input column, after the
  checkbox-selection column when that option is set. Each of them is, up to its sort
  annotation, the merge of the default definition of its type with the caller's
  column, in which every property that the caller gives wins; the first is, up to its
  sort annotation, the checkbox-selection column. With no API handle attached there is
  no annotation and the result is exactly these columns. Nothing compares the field
  of the checkbox-selection column with the fields of the caller.
\<close>

theorem hydrateColumns_merge:
  "length (hydrateColumns G cb columns options apiRef) =
     length columns + (if checkboxSelection options then 1 else 0) \<and>
   (\<forall>i<length columns.
      sortAnnotated (G (getProp (columns ! i) ''type'') ++ (columns ! i))
        (hydrateColumns G cb columns options apiRef !
           (i + (if checkboxSelection options then 1 else 0)))) \<and>
   (checkboxSelection options \<longrightarrow>
      sortAnnotated cb (hydrateColumns G cb columns options apiRef ! 0)) \<and>
   (\<forall>c k v. c k = Some v \<longrightarrow> (G t ++ c) k = Some v) \<and>
   (\<forall>c k. c k = None \<longrightarrow> (G t ++ c) k = G t k) \<and>
   hydrateColumns G cb columns options None =
     (if checkboxSelection options then [cb] else []) @
     map (\<lambda>c. G (getProp c ''type'') ++ c) columns"
proof (intro conjI allI impI)
  let ?off = "if checkboxSelection options then 1 else (0::nat)"
  note ann = hydrateColumns_annotated [of G cb columns options apiRef]
  show "length (hydrateColumns G cb columns options apiRef) = length columns + ?off"
    by (rule length_hydrateColumns)
  show "(G t ++ c) k = Some v" if "c k = Some v" for c k v
    using that by (simp add: map_add_def)
  show "(G t ++ c) k = G t k" if "c k = None" for c k
    using that by (simp add: map_add_def)
  show "hydrateColumns G cb columns options None =
     (if checkboxSelection options then [cb] else []) @
     map (\<lambda>c. G (getProp c ''type'') ++ c) columns"
    by (simp only: hydrateColumns_None mapColumns_eq)
  show "sortAnnotated (G (getProp (columns ! i) ''type'') ++ (columns ! i))
        (hydrateColumns G cb columns options apiRef ! (i + ?off))"
    if "i < length columns" for i
  proof -
    have "i + ?off < length (mapColumns G cb columns options)"
      using that by (simp add: length_mapColumns)
    then have "sortAnnotated (mapColumns G cb columns options ! (i + ?off))
                 (hydrateColumns G cb columns options apiRef ! (i + ?off))"
      using ann by (simp add: list_all2_conv_all_nth)
    moreover have "mapColumns G cb columns options ! (i + ?off) =
                   G (getProp (columns ! i) ''type'') ++ (columns ! i)"
      using that by (simp add: mapColumns_eq nth_append)
    ultimately show ?thesis by simp
  qed
  show "sortAnnotated cb (hydrateColumns G cb columns options apiRef ! 0)"
    if "checkboxSelection options"
  proof -
    have "sortAnnotated (mapColumns G cb columns options ! 0)
            (hydrateColumns G cb columns options apiRef ! 0)"
      using ann that by (auto simp: list_all2_conv_all_nth length_mapColumns)
    then show ?thesis using that by (simp add: mapColumns_eq)
  qed
qed

theorem hydrateColumns_merge_witness:
  "(0::nat) < length [[''field'' \<mapsto> Str ''a'', ''width'' \<mapsto> Num 50]] \<and>
   checkboxSelection \<lparr> checkboxSelection = True \<rparr> \<and>
   [''field'' \<mapsto> Str ''a'', ''width'' \<mapsto> Num 50] ''width'' = Some (Num 50) \<and>
   (hydrateColumns exampleGetColDef exampleCheckboxColDef
      [[''field'' \<mapsto> Str ''a'', ''width'' \<mapsto> Num 50]] \<lparr> checkboxSelection = True \<rparr>
      (Some \<lparr> getSortModel = Some [\<lparr> colId = ''a'', sort = Str ''asc'' \<rparr>] \<rparr>) ! 1) ''width'' =
     Some (Num 50) \<and>
   (hydrateColumns exampleGetColDef exampleCheckboxColDef
      [[''field'' \<mapsto> Str ''a'', ''width'' \<mapsto> Num 50]] \<lparr> checkboxSelection = True \<rparr>
      (Some \<lparr> getSortModel = Some [\<lparr> colId = ''a'', sort = Str ''asc'' \<rparr>] \<rparr>) ! 0) ''field'' =
     Some (Str ''__check__'')"
proof -
  let ?c = "[''field'' \<mapsto> Str ''a'', ''width'' \<mapsto> Num 50]"
  let ?api = "Some \<lparr> getSortModel = Some [\<lparr> colId = ''a'', sort = Str ''asc'' \<rparr>] \<rparr>"
  let ?h = "hydrateColumns exampleGetColDef exampleCheckboxColDef [?c]
              \<lparr> checkboxSelection = True \<rparr> ?api"
  note t = hydrateColumns_merge
             [where G = exampleGetColDef and cb = exampleCheckboxColDef and columns = "[?c]"
                and options = "\<lparr> checkboxSelection = True \<rparr>" and apiRef = ?api
                and t = "getProp ?c ''type''"]
  have A: "\<forall>i<length [?c].
      sortAnnotated (exampleGetColDef (getProp ([?c] ! i) ''type'') ++ ([?c] ! i))
        (?h ! (i + (if checkboxSelection \<lparr> checkboxSelection = True \<rparr> then 1 else 0)))"
    using t by (elim conjE)
  have B: "checkboxSelection \<lparr> checkboxSelection = True \<rparr> \<longrightarrow>
      sortAnnotated exampleCheckboxColDef (?h ! 0)"
    using t by (elim conjE)
  have C: "\<forall>c k v. c k = Some v \<longrightarrow>
      (exampleGetColDef (getProp ?c ''type'') ++ c) k = Some v"
    using t by (elim conjE)
  have w: "(exampleGetColDef (getProp ?c ''type'') ++ ?c) ''width'' = Some (Num 50)"
    using C [rule_format, of ?c "''width''" "Num 50"] by simp
  have "sortAnnotated (exampleGetColDef (getProp ?c ''type'') ++ ?c) (?h ! 1)"
    using A [rule_format, of 0] by simp
  then have "(?h ! 1) ''width'' = (exampleGetColDef (getProp ?c ''type'') ++ ?c) ''width''"
    unfolding sortAnnotated_def by simp
  then have one: "(?h ! 1) ''width'' = Some (Num 50)" using w by simp
  have "sortAnnotated exampleCheckboxColDef (?h ! 0)" using B by simp
  then have "(?h ! 0) ''field'' = exampleCheckboxColDef ''field''"
    unfolding sortAnnotated_def by simp
  then have zero: "(?h ! 0) ''field'' = Some (Str ''__check__'')"
    by (simp add: exampleCheckboxColDef_def)
  show ?thesis using one zero by simp
qed

text \<open>
  C4 as stated fails: a sort direction that the caller gives loses against the sort
  model of the host API, and a caller's column may carry the field identifier of the
  checkbox-selection column.
\<close>

theorem hydrateColumns_merge_counterexample:
  "(hydrateColumns exampleGetColDef exampleCheckboxColDef
      [[''field'' \<mapsto> Str ''a'', ''sortDirection'' \<mapsto> Str ''asc'']]
      \<lparr> checkboxSelection = False \<rparr>
      (Some \<lparr> getSortModel = Some [\<lparr> colId = ''a'', sort = Str ''desc'' \<rparr>] \<rparr>) ! 0)
     ''sortDirection'' = Some (Str ''desc'') \<and>
   (exampleGetColDef (getProp [''field'' \<mapsto> Str ''a'', ''sortDirection'' \<mapsto> Str ''asc''] ''type'') ++
      [''field'' \<mapsto> Str ''a'', ''sortDirection'' \<mapsto> Str ''asc'']) ''sortDirection'' =
     Some (Str ''asc'') \<and>
   map (\<lambda>c. getProp c ''field'')
     (hydrateColumns exampleGetColDef exampleCheckboxColDef
        [[''field'' \<mapsto> Str ''__check__'']] \<lparr> checkboxSelection = True \<rparr> None) =
     [Str ''__check__'', Str ''__check__'']"
  by (simp add: hydrateColumns_def mapColumns_def assignSortIndexes_def applySortModel_def
        sortedCols_def setMissingSortIndex_def applySortItem_def findIndex_def Let_def
        exampleGetColDef_def exampleCheckboxColDef_def getProp_def loose_null_def
        enumerate_eq_zip)

section \<open>The two sort annotation phases of hydration\<close>

lemma setMissingSortIndex_nth:
  "j < length cols \<Longrightarrow>
   setMissingSortIndex (idx, j) cols ! i =
     (if i = j then withSortIndex idx (cols ! j) else cols ! i)"
  by (simp add: setMissingSortIndex_def withSortIndex_def)

lemma length_setMissingSortIndex: "length (setMissingSortIndex ic cols) = length cols"
  by (cases ic) (simp add: setMissingSortIndex_def)

lemma fold_setMissingSortIndex_nth:
  "distinct js \<Longrightarrow> \<forall>j\<in>set js. j < length cols \<Longrightarrow>
   fold setMissingSortIndex (enumerate k js) cols ! i =
     (if i \<in> set js
      then withSortIndex (k + length (takeWhile (\<lambda>x. x \<noteq> i) js)) (cols ! i)
      else cols ! i)"
proof (induction js arbitrary: k cols)
  case Nil
  show ?case by simp
next
  case (Cons j js)
  let ?cols1 = "setMissingSortIndex (k, j) cols"
  have j: "j < length cols" and nj: "j \<notin> set js" and d: "distinct js"
    using Cons.prems by auto
  have b: "\<forall>x\<in>set js. x < length ?cols1"
    using Cons.prems(2) by (simp add: length_setMissingSortIndex)
  note IH = Cons.IH [OF d b, of "Suc k"]
  have step: "fold setMissingSortIndex (enumerate k (j # js)) cols =
              fold setMissingSortIndex (enumerate (Suc k) js) ?cols1"
    by simp
  have c1: "?cols1 ! i = (if i = j then withSortIndex k (cols ! j) else cols ! i)"
    using j by (rule setMissingSortIndex_nth)
  show ?case
  proof (cases "i = j")
    case True
    have "i \<notin> set js" using nj True by simp
    then have "fold setMissingSortIndex (enumerate (Suc k) js) ?cols1 ! i = ?cols1 ! i"
      by (simp only: IH if_False)
    then show ?thesis
      by (simp only: step c1) (simp add: True)
  next
    case False
    have "?cols1 ! i = cols ! i" using False by (simp only: c1 if_False)
    then have "fold setMissingSortIndex (enumerate (Suc k) js) ?cols1 ! i =
          (if i \<in> set js
           then withSortIndex (Suc k + length (takeWhile (\<lambda>x. x \<noteq> i) js)) (cols ! i)
           else cols ! i)"
      by (simp only: IH)
    then show ?thesis
      using False by (simp only: step) simp
  qed
qed

lemma takeWhile_filter_upt:
  "i < n \<Longrightarrow> P i \<Longrightarrow>
   length (takeWhile (\<lambda>x. x \<noteq> i) (filter P [0..<n])) = length (filter P [0..<i])"
proof (induction n)
  case 0
  then show ?case by simp
next
  case (Suc n)
  show ?case
  proof (cases "i = n")
    case True
    have "takeWhile (\<lambda>x. x \<noteq> n) (filter P [0..<n] @ [n]) =
          filter P [0..<n] @ takeWhile (\<lambda>x. x \<noteq> n) [n]"
      by (rule takeWhile_append2) auto
    then show ?thesis using Suc.prems True by simp
  next
    case False
    then have lt: "i < n" using Suc.prems by simp
    have mem: "i \<in> set (filter P [0..<n])" using lt Suc.prems by simp
    have "takeWhile (\<lambda>x. x \<noteq> i) (filter P [0..<n] @ ys) =
          takeWhile (\<lambda>x. x \<noteq> i) (filter P [0..<n])" for ys
      by (rule takeWhile_append1 [OF mem]) simp
    then show ?thesis using Suc.IH [OF lt Suc.prems(2)] by simp
  qed
qed

lemma map_nth_upt_take: "i \<le> length cols \<Longrightarrow> map ((!) cols) [0..<i] = take i cols"
  by (induction i) (simp_all add: take_Suc_conv_app_nth)

lemma length_filter_upt_take:
  "i \<le> length cols \<Longrightarrow>
   length (filter (\<lambda>c. Q (cols ! c)) [0..<i]) = length (filter Q (take i cols))"
proof -
  assume i: "i \<le> length cols"
  have "filter Q (map ((!) cols) [0..<i]) = map ((!) cols) (filter (Q \<circ> (!) cols) [0..<i])"
    by (rule filter_map)
  then have "length (filter Q (take i cols)) = length (filter (Q \<circ> (!) cols) [0..<i])"
    using map_nth_upt_take [OF i] by simp
  then show ?thesis by (simp add: comp_def)
qed

lemma assignSortIndexes_nth:
  assumes "i < length cols"
  shows "assignSortIndexes cols (Some api) ! i =
     (if hasSortDirection (cols ! i)
      then withSortIndex (length (filter hasSortDirection (take i cols))) (cols ! i)
      else cols ! i)"
proof (cases "sortedCols cols = []")
  case True
  then have "\<not> hasSortDirection (cols ! i)"
    using assms by (auto simp: sortedCols_def hasSortDirection_def filter_empty_conv)
  then show ?thesis using True by (simp add: assignSortIndexes_def)
next
  case False
  have d: "distinct (sortedCols cols)" by (simp add: sortedCols_def)
  have b: "\<forall>j\<in>set (sortedCols cols). j < length cols" by (simp add: sortedCols_def)
  have mem: "(i \<in> set (sortedCols cols)) = hasSortDirection (cols ! i)"
    using assms by (simp add: sortedCols_def hasSortDirection_def)
  have pos: "length (takeWhile (\<lambda>x. x \<noteq> i) (sortedCols cols)) =
             length (filter hasSortDirection (take i cols))" if "hasSortDirection (cols ! i)"
  proof -
    have "length (takeWhile (\<lambda>x. x \<noteq> i) (sortedCols cols)) =
          length (filter (\<lambda>c. hasSortDirection (cols ! c)) [0..<i])"
      unfolding sortedCols_def hasSortDirection_def [symmetric]
      using assms that by (rule takeWhile_filter_upt)
    also have "\<dots> = length (filter hasSortDirection (take i cols))"
      using assms by (intro length_filter_upt_take) simp
    finally show ?thesis .
  qed
  have "assignSortIndexes cols (Some api) =
        fold setMissingSortIndex (enumerate 0 (sortedCols cols)) cols"
    using False by (simp add: assignSortIndexes_def)
  then show ?thesis
    using pos by (simp add: fold_setMissingSortIndex_nth [OF d b] mem)
qed


lemma annotated_fields:
  "list_all2 sortAnnotated xs ys \<Longrightarrow>
   map (\<lambda>c. getProp c ''field'') ys = map (\<lambda>c. getProp c ''field'') xs"
  by (induction rule: list_all2_induct) (simp_all add: sortAnnotated_getProp)

lemma annotated_findIndex:
  assumes "list_all2 sortAnnotated xs ys"
  shows "findIndex (\<lambda>c. getProp c ''field'' = v) ys = findIndex (\<lambda>c. getProp c ''field'' = v) xs"
proof (rule findIndex_cong_map)
  have "map (\<lambda>c. getProp c ''field'' = v) zs =
        map (\<lambda>w. w = v) (map (\<lambda>c. getProp c ''field'') zs)" for zs
    by simp
  then show "map (\<lambda>c. getProp c ''field'' = v) ys = map (\<lambda>c. getProp c ''field'' = v) xs"
    using annotated_fields [OF assms] by (simp only:)
qed

lemma applySortItem_nth:
  "applySortItem n (idx, m) cols ! i =
     (if findIndex (\<lambda>c. getProp c ''field'' = Str (colId m)) cols = int i
      then withSortItem n idx m (cols ! i) else cols ! i)"
proof (cases "0 \<le> findIndex (\<lambda>c. getProp c ''field'' = Str (colId m)) cols")
  case True
  note f = findIndex_found(1) [OF True]
  show ?thesis
  proof (cases "findIndex (\<lambda>c. getProp c ''field'' = Str (colId m)) cols = int i")
    case eq: True
    then have "nat (findIndex (\<lambda>c. getProp c ''field'' = Str (colId m)) cols) = i" by simp
    then show ?thesis
      using True f eq by (simp add: applySortItem_def Let_def withSortItem_def)
  next
    case ne: False
    then have "nat (findIndex (\<lambda>c. getProp c ''field'' = Str (colId m)) cols) \<noteq> i"
      using True by auto
    then show ?thesis
      using True ne by (simp add: applySortItem_def Let_def)
  qed
next
  case False
  then have "findIndex (\<lambda>c. getProp c ''field'' = Str (colId m)) cols \<noteq> int i" by auto
  then show ?thesis using False by (simp add: applySortItem_def Let_def)
qed

lemma fold_applySortItem_annotated:
  "list_all2 sortAnnotated cols (fold (applySortItem n) ims cols)"
  by (rule fold_annotated) (rule applySortItem_annotated)

lemma fold_applySortItem_untouched:
  "\<forall>m\<in>set sm. findIndex (\<lambda>c. getProp c ''field'' = Str (colId m)) cols \<noteq> int i \<Longrightarrow>
   fold (applySortItem n) (enumerate k sm) cols ! i = cols ! i"
proof (induction sm arbitrary: k cols)
  case Nil
  show ?case by simp
next
  case (Cons m sm)
  let ?cols1 = "applySortItem n (k, m) cols"
  have c1: "?cols1 ! i = cols ! i" using Cons.prems by (simp add: applySortItem_nth)
  have "\<forall>x\<in>set sm. findIndex (\<lambda>c. getProp c ''field'' = Str (colId x)) ?cols1 \<noteq> int i"
    using Cons.prems by (simp add: annotated_findIndex [OF applySortItem_annotated])
  then have "fold (applySortItem n) (enumerate (Suc k) sm) ?cols1 ! i = ?cols1 ! i"
    by (rule Cons.IH)
  then show ?case by (simp add: c1)
qed

lemma withSortItem_annotated:
  "sortAnnotated c c' \<Longrightarrow> withSortItem n idx m c' = withSortItem n idx m c"
  by (rule ext) (simp add: withSortItem_def sortAnnotated_def)

lemma getProp_found:
  "findIndex (\<lambda>c. getProp c ''field'' = v) cols = int i \<Longrightarrow> getProp (cols ! i) ''field'' = v"
  using findIndex_found(2) [of "\<lambda>c. getProp c ''field'' = v" cols] by simp

lemma fold_applySortItem_last:
  "idx < length sm \<Longrightarrow>
   \<forall>j. idx < j \<and> j < length sm \<longrightarrow> colId (sm ! j) \<noteq> colId (sm ! idx) \<Longrightarrow>
   findIndex (\<lambda>c. getProp c ''field'' = Str (colId (sm ! idx))) cols = int i \<Longrightarrow>
   fold (applySortItem n) (enumerate 0 sm) cols ! i = withSortItem n idx (sm ! idx) (cols ! i)"
proof (induction sm rule: rev_induct)
  case Nil
  then show ?case by simp
next
  case (snoc x sm)
  let ?R = "fold (applySortItem n) (enumerate 0 sm) cols"
  have ann: "list_all2 sortAnnotated cols ?R" by (rule fold_applySortItem_annotated)
  have i: "i < length cols"
    using findIndex_found(1) [of "\<lambda>c. getProp c ''field'' = Str (colId ((sm @ [x]) ! idx))" cols]
      snoc.prems(3) by simp
  have anni: "sortAnnotated (cols ! i) (?R ! i)"
    using ann i by (simp add: list_all2_conv_all_nth)
  have res: "fold (applySortItem n) (enumerate 0 (sm @ [x])) cols =
             applySortItem n (length sm, x) ?R"
    by (simp add: enumerate_append_eq)
  show ?case
  proof (cases "idx = length sm")
    case True
    have "findIndex (\<lambda>c. getProp c ''field'' = Str (colId x)) ?R = int i"
      using snoc.prems(3) True by (simp add: annotated_findIndex [OF ann])
    then have "applySortItem n (length sm, x) ?R ! i = withSortItem n (length sm) x (?R ! i)"
      by (simp add: applySortItem_nth)
    then show ?thesis
      using True by (simp add: res withSortItem_annotated [OF anni])
  next
    case False
    then have lt: "idx < length sm" using snoc.prems(1) by simp
    have nth: "(sm @ [x]) ! idx = sm ! idx" using lt by (simp add: nth_append)
    have ne: "colId x \<noteq> colId (sm ! idx)"
      using snoc.prems(2) [rule_format, of "length sm"] lt by (simp add: nth_append)
    have later: "\<forall>j. idx < j \<and> j < length sm \<longrightarrow> colId (sm ! j) \<noteq> colId (sm ! idx)"
    proof (intro allI impI)
      fix j assume j: "idx < j \<and> j < length sm"
      then show "colId (sm ! j) \<noteq> colId (sm ! idx)"
        using snoc.prems(2) [rule_format, of j] lt by (simp add: nth_append)
    qed
    have fi: "findIndex (\<lambda>c. getProp c ''field'' = Str (colId (sm ! idx))) cols = int i"
      using snoc.prems(3) by (simp only: nth)
    have IH: "?R ! i = withSortItem n idx (sm ! idx) (cols ! i)"
      using lt later fi by (rule snoc.IH)
    have "findIndex (\<lambda>c. getProp c ''field'' = Str (colId x)) cols \<noteq> int i"
    proof
      assume "findIndex (\<lambda>c. getProp c ''field'' = Str (colId x)) cols = int i"
      then have "getProp (cols ! i) ''field'' = Str (colId x)" by (rule getProp_found)
      moreover have "getProp (cols ! i) ''field'' = Str (colId (sm ! idx))"
        using fi by (rule getProp_found)
      ultimately show False using ne by simp
    qed
    then have "findIndex (\<lambda>c. getProp c ''field'' = Str (colId x)) ?R \<noteq> int i"
      by (simp add: annotated_findIndex [OF ann])
    then have "applySortItem n (length sm, x) ?R ! i = ?R ! i"
      by (simp add: applySortItem_nth)
    then show ?thesis by (simp add: res IH nth)
  qed
qed


lemma length_assignSortIndexes: "length (assignSortIndexes cols apiRef) = length cols"
  using list_all2_lengthD [OF assignSortIndexes_annotated [of cols apiRef]] by simp

lemma length_applySortModel: "length (applySortModel cols apiRef) = length cols"
  using list_all2_lengthD [OF applySortModel_annotated [of cols apiRef]] by simp

lemma applySortModel_Some:
  "applySortModel cols (Some \<lparr> getSortModel = Some sortModel \<rparr>) =
     fold (applySortItem (length sortModel)) (enumerate 0 sortModel) cols"
  by (simp add: applySortModel_def)

text \<open>
  C2 (as amended). Hydration is the mapping of the columns followed by two phases.
  The first does nothing while no API handle is attached; with a handle, every column
  that carries a sort direction and lacks a sort priority gets as priority its
  position, counted from one, among the columns that carry a sort direction, and every
  other column is unchanged. The second does nothing while no handle is attached or
  the handle has no \<open>getSortModel\<close>; otherwise, for each entry of the sort model that
  no later entry repeats, the first column whose field is the entry's \<open>colId\<close> gets the
  sort direction of the entry and, as priority, the position of the entry plus one
  when the model has more than one entry and \<^verbatim>\<open>undefined\<close> otherwise; a column that is
  the first match of no entry is unchanged.
\<close>

theorem hydration_sort_annotation:
  "hydrateColumns G cb columns options apiRef =
     applySortModel (assignSortIndexes (mapColumns G cb columns options) apiRef) apiRef \<and>
   assignSortIndexes cols None = cols \<and>
   applySortModel cols None = cols \<and>
   applySortModel cols (Some \<lparr> getSortModel = None \<rparr>) = cols \<and>
   (\<forall>i<length cols.
      (hasSortDirection (cols ! i) \<and> loose_null (getProp (cols ! i) ''sortIndex'') \<longrightarrow>
         assignSortIndexes cols (Some api) ! i =
           (cols ! i)(''sortIndex'' \<mapsto>
              Num (int (length (filter hasSortDirection (take i cols))) + 1))) \<and>
      (\<not> (hasSortDirection (cols ! i) \<and> loose_null (getProp (cols ! i) ''sortIndex'')) \<longrightarrow>
         assignSortIndexes cols (Some api) ! i = cols ! i)) \<and>
   length (assignSortIndexes cols apiRef) = length cols \<and>
   length (applySortModel cols apiRef) = length cols \<and>
   (\<forall>idx<length sortModel.
      (\<forall>j. idx < j \<and> j < length sortModel \<longrightarrow>
         colId (sortModel ! j) \<noteq> colId (sortModel ! idx)) \<longrightarrow>
      (\<forall>i. findIndex (\<lambda>c. getProp c ''field'' = Str (colId (sortModel ! idx))) cols = int i \<longrightarrow>
         applySortModel cols (Some \<lparr> getSortModel = Some sortModel \<rparr>) ! i =
           (cols ! i)(''sortDirection'' \<mapsto> sort (sortModel ! idx),
                      ''sortIndex'' \<mapsto>
                        (if 1 < length sortModel then Num (int idx + 1) else Undef)))) \<and>
   (\<forall>i. (\<forall>m\<in>set sortModel.
           findIndex (\<lambda>c. getProp c ''field'' = Str (colId m)) cols \<noteq> int i) \<longrightarrow>
      applySortModel cols (Some \<lparr> getSortModel = Some sortModel \<rparr>) ! i = cols ! i)"
proof (intro conjI allI impI)
  show "hydrateColumns G cb columns options apiRef =
     applySortModel (assignSortIndexes (mapColumns G cb columns options) apiRef) apiRef"
    by (simp add: hydrateColumns_def Let_def)
  show "assignSortIndexes cols None = cols"
    by (simp add: assignSortIndexes_def Let_def)
  show "applySortModel cols None = cols"
    by (simp add: applySortModel_def)
  show "applySortModel cols (Some \<lparr> getSortModel = None \<rparr>) = cols"
    by (simp add: applySortModel_def)
  show "length (assignSortIndexes cols apiRef) = length cols"
    by (rule length_assignSortIndexes)
  show "length (applySortModel cols apiRef) = length cols"
    by (rule length_applySortModel)
next
  fix i
  assume i: "i < length cols"
  note a = assignSortIndexes_nth [OF i, of api]
  show "assignSortIndexes cols (Some api) ! i =
           (cols ! i)(''sortIndex'' \<mapsto>
              Num (int (length (filter hasSortDirection (take i cols))) + 1))"
    if "hasSortDirection (cols ! i) \<and> loose_null (getProp (cols ! i) ''sortIndex'')"
    using that by (simp only: a withSortIndex_def if_True)
  show "assignSortIndexes cols (Some api) ! i = cols ! i"
    if "\<not> (hasSortDirection (cols ! i) \<and> loose_null (getProp (cols ! i) ''sortIndex''))"
    using that by (auto simp only: a withSortIndex_def split: if_splits)
next
  fix idx i
  assume "idx < length sortModel"
    and "\<forall>j. idx < j \<and> j < length sortModel \<longrightarrow>
           colId (sortModel ! j) \<noteq> colId (sortModel ! idx)"
    and "findIndex (\<lambda>c. getProp c ''field'' = Str (colId (sortModel ! idx))) cols = int i"
  then have "fold (applySortItem (length sortModel)) (enumerate 0 sortModel) cols ! i =
             withSortItem (length sortModel) idx (sortModel ! idx) (cols ! i)"
    by (rule fold_applySortItem_last)
  then show "applySortModel cols (Some \<lparr> getSortModel = Some sortModel \<rparr>) ! i =
           (cols ! i)(''sortDirection'' \<mapsto> sort (sortModel ! idx),
                      ''sortIndex'' \<mapsto>
                        (if 1 < length sortModel then Num (int idx + 1) else Undef))"
    by (simp only: applySortModel_Some withSortItem_def)
next
  fix i
  assume "\<forall>m\<in>set sortModel.
           findIndex (\<lambda>c. getProp c ''field'' = Str (colId m)) cols \<noteq> int i"
  then have "fold (applySortItem (length sortModel)) (enumerate 0 sortModel) cols ! i = cols ! i"
    by (rule fold_applySortItem_untouched)
  then show "applySortModel cols (Some \<lparr> getSortModel = Some sortModel \<rparr>) ! i = cols ! i"
    by (simp only: applySortModel_Some)
qed

text \<open>
  C2 as stated fails: with no API handle attached, a column that carries a sort
  direction and no sort priority is returned without a priority.
\<close>

theorem hydration_sort_annotation_counterexample:
  "hasSortDirection
     (hydrateColumns exampleGetColDef exampleCheckboxColDef
        [[''field'' \<mapsto> Str ''a'', ''sortDirection'' \<mapsto> Str ''asc'']]
        \<lparr> checkboxSelection = False \<rparr> None ! 0) \<and>
   getProp
     (hydrateColumns exampleGetColDef exampleCheckboxColDef
        [[''field'' \<mapsto> Str ''a'', ''sortDirection'' \<mapsto> Str ''asc'']]
        \<lparr> checkboxSelection = False \<rparr> None ! 0) ''sortIndex'' = Undef"
  by (simp add: hydrateColumns_None mapColumns_eq hasSortDirection_def getProp_def
        loose_null_def exampleGetColDef_def)


theorem hydration_sort_annotation_witness:
  "(0::nat) < length [[''field'' \<mapsto> Str ''a'', ''sortDirection'' \<mapsto> Str ''asc''],
                      [''field'' \<mapsto> Str ''b'']] \<and>
   hasSortDirection ([[''field'' \<mapsto> Str ''a'', ''sortDirection'' \<mapsto> Str ''asc''],
                      [''field'' \<mapsto> Str ''b'']] ! 0) \<and>
   loose_null (getProp ([[''field'' \<mapsto> Str ''a'', ''sortDirection'' \<mapsto> Str ''asc''],
                         [''field'' \<mapsto> Str ''b'']] ! 0) ''sortIndex'') \<and>
   (1::nat) < length [\<lparr> colId = ''b'', sort = Str ''desc'' \<rparr>, \<lparr> colId = ''a'', sort = Str ''asc'' \<rparr>] \<and>
   findIndex (\<lambda>c. getProp c ''field'' = Str ''a'')
     [[''field'' \<mapsto> Str ''a'', ''sortDirection'' \<mapsto> Str ''asc''], [''field'' \<mapsto> Str ''b'']] = int 0 \<and>
   getProp (assignSortIndexes
              [[''field'' \<mapsto> Str ''a'', ''sortDirection'' \<mapsto> Str ''asc''], [''field'' \<mapsto> Str ''b'']]
              (Some \<lparr> getSortModel = None \<rparr>) ! 0) ''sortIndex'' = Num 1 \<and>
   getProp (applySortModel
              [[''field'' \<mapsto> Str ''a'', ''sortDirection'' \<mapsto> Str ''asc''], [''field'' \<mapsto> Str ''b'']]
              (Some \<lparr> getSortModel =
                 Some [\<lparr> colId = ''b'', sort = Str ''desc'' \<rparr>, \<lparr> colId = ''a'', sort = Str ''asc'' \<rparr>] \<rparr>)
              ! 0) ''sortIndex'' = Num 2 \<and>
   getProp (applySortModel
              [[''field'' \<mapsto> Str ''a'', ''sortDirection'' \<mapsto> Str ''asc''], [''field'' \<mapsto> Str ''b'']]
              (Some \<lparr> getSortModel = Some [\<lparr> colId = ''a'', sort = Str ''asc'' \<rparr>] \<rparr>)
              ! 1) ''sortDirection'' = Undef"
proof -
  let ?cols = "[[''field'' \<mapsto> Str ''a'', ''sortDirection'' \<mapsto> Str ''asc''], [''field'' \<mapsto> Str ''b'']]"
  let ?sm = "[\<lparr> colId = ''b'', sort = Str ''desc'' \<rparr>, \<lparr> colId = ''a'', sort = Str ''asc'' \<rparr>]"
  let ?sm1 = "[\<lparr> colId = ''a'', sort = Str ''asc'' \<rparr>]"
  note t = hydration_sort_annotation
             [where cols = ?cols and sortModel = ?sm and api = "\<lparr> getSortModel = None \<rparr>"
                and G = exampleGetColDef and cb = exampleCheckboxColDef and columns = "[]"
                and options = "\<lparr> checkboxSelection = False \<rparr>" and apiRef = None]
  note t1 = hydration_sort_annotation
             [where cols = ?cols and sortModel = ?sm1 and api = "\<lparr> getSortModel = None \<rparr>"
                and G = exampleGetColDef and cb = exampleCheckboxColDef and columns = "[]"
                and options = "\<lparr> checkboxSelection = False \<rparr>" and apiRef = None]
  have h1: "hasSortDirection (?cols ! 0)"
    by (simp add: hasSortDirection_def getProp_def loose_null_def)
  have h2: "loose_null (getProp (?cols ! 0) ''sortIndex'')"
    by (simp add: getProp_def loose_null_def)
  have h3: "findIndex (\<lambda>c. getProp c ''field'' = Str ''a'') ?cols = int 0"
    by (simp add: findIndex_def getProp_def)
  have h5: "\<forall>m\<in>set ?sm1. findIndex (\<lambda>c. getProp c ''field'' = Str (colId m)) ?cols \<noteq> int 1"
    using h3 by simp
  have A: "\<forall>i<length ?cols.
      (hasSortDirection (?cols ! i) \<and> loose_null (getProp (?cols ! i) ''sortIndex'') \<longrightarrow>
         assignSortIndexes ?cols (Some \<lparr> getSortModel = None \<rparr>) ! i =
           (?cols ! i)(''sortIndex'' \<mapsto>
              Num (int (length (filter hasSortDirection (take i ?cols))) + 1))) \<and>
      (\<not> (hasSortDirection (?cols ! i) \<and> loose_null (getProp (?cols ! i) ''sortIndex'')) \<longrightarrow>
         assignSortIndexes ?cols (Some \<lparr> getSortModel = None \<rparr>) ! i = ?cols ! i)"
    using t by (elim conjE)
  have B: "\<forall>idx<length ?sm.
      (\<forall>j. idx < j \<and> j < length ?sm \<longrightarrow> colId (?sm ! j) \<noteq> colId (?sm ! idx)) \<longrightarrow>
      (\<forall>i. findIndex (\<lambda>c. getProp c ''field'' = Str (colId (?sm ! idx))) ?cols = int i \<longrightarrow>
         applySortModel ?cols (Some \<lparr> getSortModel = Some ?sm \<rparr>) ! i =
           (?cols ! i)(''sortDirection'' \<mapsto> sort (?sm ! idx),
                      ''sortIndex'' \<mapsto> (if 1 < length ?sm then Num (int idx + 1) else Undef)))"
    using t by (elim conjE)
  have C: "\<forall>i. (\<forall>m\<in>set ?sm1.
           findIndex (\<lambda>c. getProp c ''field'' = Str (colId m)) ?cols \<noteq> int i) \<longrightarrow>
      applySortModel ?cols (Some \<lparr> getSortModel = Some ?sm1 \<rparr>) ! i = ?cols ! i"
    using t1 by (elim conjE)
  have "assignSortIndexes ?cols (Some \<lparr> getSortModel = None \<rparr>) ! 0 =
           (?cols ! 0)(''sortIndex'' \<mapsto>
              Num (int (length (filter hasSortDirection (take 0 ?cols))) + 1))"
    using A [rule_format, of 0] h1 h2 by blast
  then have r1: "getProp (assignSortIndexes ?cols (Some \<lparr> getSortModel = None \<rparr>) ! 0)
                   ''sortIndex'' = Num 1"
    by (simp add: getProp_def)
  have "applySortModel ?cols (Some \<lparr> getSortModel = Some ?sm \<rparr>) ! 0 =
           (?cols ! 0)(''sortDirection'' \<mapsto> sort (?sm ! 1),
                      ''sortIndex'' \<mapsto> (if 1 < length ?sm then Num (int 1 + 1) else Undef))"
  proof (rule B [rule_format])
    show "1 < length ?sm" by simp
    show "colId (?sm ! j) \<noteq> colId (?sm ! 1)" if "1 < j \<and> j < length ?sm" for j
      using that by auto
    show "findIndex (\<lambda>c. getProp c ''field'' = Str (colId (?sm ! 1))) ?cols = int 0"
      using h3 by simp
  qed
  then have r2: "getProp (applySortModel ?cols (Some \<lparr> getSortModel = Some ?sm \<rparr>) ! 0)
                   ''sortIndex'' = Num 2"
    by (simp add: getProp_def)
  have "applySortModel ?cols (Some \<lparr> getSortModel = Some ?sm1 \<rparr>) ! 1 = ?cols ! 1"
    using C [rule_format, of 1] h5 by blast
  then have r3: "getProp (applySortModel ?cols (Some \<lparr> getSortModel = Some ?sm1 \<rparr>) ! 1)
                   ''sortDirection'' = Undef"
    by (simp add: getProp_def)
  show ?thesis using h1 h2 h3 r1 r2 r3 by simp
qed

section \<open>Prefix sums of the widths and the example of the specification\<close>

lemma example_mapped_visible:
  assumes "\<forall>t. \<not> truthy (getProp (G t) ''hide'')"
  shows "filterVisible (map (\<lambda>c. G (getProp c ''type'') ++ c) exampleColumns) =
         [G Undef ++ (exampleColumns ! 0), G Undef ++ (exampleColumns ! 2)]"
proof -
  have a: "\<not> loose_null (getProp (G Undef ++ (exampleColumns ! 0)) ''field'') \<and>
           \<not> truthy (getProp (G Undef ++ (exampleColumns ! 0)) ''hide'')"
    using assms by (intro merged_visible) (simp_all add: exampleColumns_def getProp_def loose_null_def)
  have c: "\<not> loose_null (getProp (G Undef ++ (exampleColumns ! 2)) ''field'') \<and>
           \<not> truthy (getProp (G Undef ++ (exampleColumns ! 2)) ''hide'')"
    using assms by (intro merged_visible) (simp_all add: exampleColumns_def getProp_def loose_null_def)
  have b: "truthy (getProp (G Undef ++ (exampleColumns ! 1)) ''hide'')"
    by (simp add: exampleColumns_def getProp_def)
  have ty: "map (\<lambda>c. G (getProp c ''type'') ++ c) exampleColumns =
            [G Undef ++ (exampleColumns ! 0), G Undef ++ (exampleColumns ! 1),
             G Undef ++ (exampleColumns ! 2)]"
    by (simp add: exampleColumns_def getProp_def)
  show ?thesis
    using a b c by (simp only: ty filterVisible_def filter.simps) simp
qed

lemma example_resetState:
  assumes "\<forall>t. \<not> truthy (getProp (G t) ''hide'')" "\<not> checkboxSelection options"
  shows "map (\<lambda>c. getProp c ''field'') (visible (resetState G cb exampleColumns options apiRef)) =
           [Str ''a'', Str ''c''] \<and>
         totalWidth (meta (resetState G cb exampleColumns options apiRef)) = Num 180 \<and>
         positions (meta (resetState G cb exampleColumns options apiRef)) = [Num 0, Num 100]"
proof -
  let ?h = "hydrateColumns G cb exampleColumns options apiRef"
  let ?a = "G Undef ++ (exampleColumns ! 0)"
  let ?c = "G Undef ++ (exampleColumns ! 2)"
  have "list_all2 sortAnnotated (filterVisible (mapColumns G cb exampleColumns options))
          (filterVisible ?h)"
    by (rule filterVisible_annotated [OF hydrateColumns_annotated])
  then have "list_all2 sortAnnotated [?a, ?c] (filterVisible ?h)"
    using assms(2) by (simp add: mapColumns_eq example_mapped_visible [OF assms(1)])
  then obtain x y where v: "filterVisible ?h = [x, y]"
    and x: "sortAnnotated ?a x" and y: "sortAnnotated ?c y"
    by (auto simp: list_all2_Cons1)
  have fx: "getProp x ''field'' = Str ''a''" and wx: "getProp x ''width'' = Num 100"
    using sortAnnotated_getProp [OF x]
    by (simp_all add: exampleColumns_def getProp_def)
  have fy: "getProp y ''field'' = Str ''c''" and wy: "getProp y ''width'' = Num 80"
    using sortAnnotated_getProp [OF y]
    by (simp_all add: exampleColumns_def getProp_def)
  show ?thesis
    by (simp add: resetState_sel v fx fy toMeta_def toMetaWith_def toMeta_step_def wx wy js_add_def round_double_def)
qed

text \<open>
  The addition of the model rounds as the addition of doubles does: \<open>2\<^sup>5\<^sup>3 + 1\<close> is
  \<open>2\<^sup>5\<^sup>3\<close> (a tie, resolved to the even neighbour), \<open>2\<^sup>5\<^sup>3 + 3\<close> is \<open>2\<^sup>5\<^sup>3 + 4\<close>, and
  \<open>2\<^sup>1\<^sup>0\<^sup>2\<^sup>3 + 2\<^sup>1\<^sup>0\<^sup>2\<^sup>3\<close> overflows.
\<close>

lemma example_rounding:
  "js_add (Num 9007199254740992) (Num 1) = Num 9007199254740992"
  "js_add (Num 9007199254740992) (Num 3) = Num 9007199254740996"
  "js_add (Num (- 9007199254740992)) (Num (- 3)) = Num (- 9007199254740996)"
  "js_add PosInf (Num 1) = PosInf"
  "js_add PosInf NegInf = NaN"
  "js_add (Num 1) Undef = NaN"
  by (simp_all add: js_add_def) (simp_all add: round_double_def Let_def bit_length_numeral)

lemma example_overflow: "js_add (Num (2 ^ 1023)) (Num (2 ^ 1023)) = PosInf"
proof -
  have "(2::int) ^ 1023 + 2 ^ 1023 = 2 ^ 1024"
    by simp
  moreover have "round_double (2 ^ 1024) = PosInf"
    by (simp add: round_double_def Let_def bit_length_numeral)
  ultimately show ?thesis
    by (simp only: js_add_Num)
qed

text \<open>
  C1. The reduction of \<open>toMeta\<close> is stated for any representation of numbers, that is
  for any operator \<open>addW\<close> standing for \<^verbatim>\<open>+\<close>, any \<open>zeroW\<close> and any reading \<open>widthOf\<close> of
  a column: for every list of visible columns, \<open>positions\<close> is as long as the list,
  \<open>positions ! i\<close> is the sum, added from \<open>zeroW\<close> from left to right, of the widths
  of the columns before index \<open>i\<close> (so \<open>positions ! 0\<close> is \<open>zeroW\<close>), and the total
  width is that sum over all the columns. \<open>toMeta\<close> on column objects is the instance
  with the \<^verbatim>\<open>+\<close> of JavaScript values. The sum is the one the code computes, each
  addition rounded as a double: when the widths are the integers \<open>ws\<close> and no partial
  sum exceeds \<open>2\<^sup>5\<^sup>3\<close> in magnitude, no addition rounds and the sums are the integer
  sums \<open>sum_list (take i ws)\<close> and \<open>sum_list ws\<close>; for the widths \<open>2\<^sup>5\<^sup>3\<close>, 1, 1 the
  total is \<open>2\<^sup>5\<^sup>3\<close>, as in JavaScript. The columns a (100), b (50, hidden), c (80) have
  the visible columns a and c, total width 180 and positions 0 and 100, by the two
  derivations alone and through the whole recomputation of the state (for type
  defaults that hide no column, with checkbox selection off, whatever the API handle).
\<close>

theorem toMeta_prefix_sums:
  "length (snd (toMetaWith addW zeroW widthOf vis)) = length vis \<and>
   (\<forall>i<length vis.
      snd (toMetaWith addW zeroW widthOf vis) ! i = foldl addW zeroW (map widthOf (take i vis))) \<and>
   (vis \<noteq> [] \<longrightarrow> snd (toMetaWith addW zeroW widthOf vis) ! 0 = zeroW) \<and>
   fst (toMetaWith addW zeroW widthOf vis) = foldl addW zeroW (map widthOf vis) \<and>
   totalWidth (toMeta cols) =
     fst (toMetaWith js_add (Num 0) (\<lambda>c. getProp c ''width'') cols) \<and>
   positions (toMeta cols) =
     snd (toMetaWith js_add (Num 0) (\<lambda>c. getProp c ''width'') cols) \<and>
   (map (\<lambda>c. getProp c ''width'') cols = map Num ws \<and>
    (\<forall>i\<le>length ws. \<bar>sum_list (take i ws)\<bar> \<le> 9007199254740992) \<longrightarrow>
      (\<forall>i<length cols. positions (toMeta cols) ! i = Num (sum_list (take i ws))) \<and>
      totalWidth (toMeta cols) = Num (sum_list ws)) \<and>
   totalWidth (toMeta [[''width'' \<mapsto> Num 9007199254740992], [''width'' \<mapsto> Num 1],
                       [''width'' \<mapsto> Num 1]]) = Num 9007199254740992 \<and>
   exampleColumns =
     [[''field'' \<mapsto> Str ''a'', ''width'' \<mapsto> Num 100],
      [''field'' \<mapsto> Str ''b'', ''width'' \<mapsto> Num 50, ''hide'' \<mapsto> Bool True],
      [''field'' \<mapsto> Str ''c'', ''width'' \<mapsto> Num 80]] \<and>
   filterVisible exampleColumns = [exampleColumns ! 0, exampleColumns ! 2] \<and>
   totalWidth (toMeta (filterVisible exampleColumns)) = Num 180 \<and>
   positions (toMeta (filterVisible exampleColumns)) = [Num 0, Num 100] \<and>
   ((\<forall>t. \<not> truthy (getProp (G t) ''hide'')) \<and> \<not> checkboxSelection options \<longrightarrow>
      map (\<lambda>c. getProp c ''field'') (visible (resetState G cb exampleColumns options apiRef)) =
        [Str ''a'', Str ''c''] \<and>
      totalWidth (meta (resetState G cb exampleColumns options apiRef)) = Num 180 \<and>
      positions (meta (resetState G cb exampleColumns options apiRef)) = [Num 0, Num 100])"
proof (intro conjI)
  show "length (snd (toMetaWith addW zeroW widthOf vis)) = length vis"
    by (simp add: toMetaWith_eq)
  show "\<forall>i<length vis.
      snd (toMetaWith addW zeroW widthOf vis) ! i = foldl addW zeroW (map widthOf (take i vis))"
    by (simp add: toMetaWith_eq)
  show "vis \<noteq> [] \<longrightarrow> snd (toMetaWith addW zeroW widthOf vis) ! 0 = zeroW"
    by (cases vis) (simp_all add: toMetaWith_eq upt_conv_Cons del: upt_Suc)
  show "fst (toMetaWith addW zeroW widthOf vis) = foldl addW zeroW (map widthOf vis)"
    by (simp add: toMetaWith_eq)
  show "totalWidth (toMeta cols) =
     fst (toMetaWith js_add (Num 0) (\<lambda>c. getProp c ''width'') cols)"
    by (simp add: toMeta_def split: prod.splits)
  show "positions (toMeta cols) =
     snd (toMetaWith js_add (Num 0) (\<lambda>c. getProp c ''width'') cols)"
    by (simp add: toMeta_def split: prod.splits)
  show "map (\<lambda>c. getProp c ''width'') cols = map Num ws \<and>
    (\<forall>i\<le>length ws. \<bar>sum_list (take i ws)\<bar> \<le> 9007199254740992) \<longrightarrow>
      (\<forall>i<length cols. positions (toMeta cols) ! i = Num (sum_list (take i ws))) \<and>
      totalWidth (toMeta cols) = Num (sum_list ws)"
  proof (intro impI conjI allI)
    assume h: "map (\<lambda>c. getProp c ''width'') cols = map Num ws \<and>
               (\<forall>i\<le>length ws. \<bar>sum_list (take i ws)\<bar> \<le> 9007199254740992)"
    then have ws: "map (\<lambda>c. getProp c ''width'') cols = map Num ws"
      and safe: "\<forall>i\<le>length ws. \<bar>0 + sum_list (take i ws)\<bar> \<le> 9007199254740992"
      by simp_all
    have len: "length cols = length ws"
      using ws by (metis length_map)
    show "totalWidth (toMeta cols) = Num (sum_list ws)"
      using foldl_js_add_Num [OF safe] by (simp add: toMeta_totalWidth ws)
    fix i
    assume i: "i < length cols"
    have m: "map (\<lambda>c. getProp c ''width'') (take i cols) = map Num (take i ws)"
      using ws by (simp only: take_map [symmetric])
    have "\<forall>j\<le>length (take i ws). \<bar>0 + sum_list (take j (take i ws))\<bar> \<le> 9007199254740992"
    proof (intro allI impI)
      fix j
      assume "j \<le> length (take i ws)"
      then have j: "j \<le> i" "j \<le> length ws"
        by simp_all
      then have "take j (take i ws) = take j ws"
        by (simp add: min_def)
      then show "\<bar>0 + sum_list (take j (take i ws))\<bar> \<le> 9007199254740992"
        using safe j(2) by simp
    qed
    from foldl_js_add_Num [OF this]
    show "positions (toMeta cols) ! i = Num (sum_list (take i ws))"
      using i by (simp add: toMeta_positions m)
  qed
  show "totalWidth (toMeta [[''width'' \<mapsto> Num 9007199254740992], [''width'' \<mapsto> Num 1],
                       [''width'' \<mapsto> Num 1]]) = Num 9007199254740992"
  proof -
    have "js_add (Num 0) (Num 9007199254740992) = Num 9007199254740992"
      by (simp add: js_add_Num round_double_safe)
    then show ?thesis
      by (simp add: toMeta_totalWidth getProp_def example_rounding(1))
  qed
  show "exampleColumns =
     [[''field'' \<mapsto> Str ''a'', ''width'' \<mapsto> Num 100],
      [''field'' \<mapsto> Str ''b'', ''width'' \<mapsto> Num 50, ''hide'' \<mapsto> Bool True],
      [''field'' \<mapsto> Str ''c'', ''width'' \<mapsto> Num 80]]"
    by (rule exampleColumns_def)
  show v: "filterVisible exampleColumns = [exampleColumns ! 0, exampleColumns ! 2]"
    by (simp add: exampleColumns_def filterVisible_def getProp_def loose_null_def)
  show "totalWidth (toMeta (filterVisible exampleColumns)) = Num 180"
    by (simp only: v)
       (simp add: exampleColumns_def toMeta_totalWidth getProp_def js_add_Num round_double_safe)
  show "positions (toMeta (filterVisible exampleColumns)) = [Num 0, Num 100]"
    by (simp only: v)
       (simp add: exampleColumns_def toMeta_positions getProp_def js_add_Num round_double_safe
          upt_conv_Cons del: upt_Suc)
  show "(\<forall>t. \<not> truthy (getProp (G t) ''hide'')) \<and> \<not> checkboxSelection options \<longrightarrow>
      map (\<lambda>c. getProp c ''field'') (visible (resetState G cb exampleColumns options apiRef)) =
        [Str ''a'', Str ''c''] \<and>
      totalWidth (meta (resetState G cb exampleColumns options apiRef)) = Num 180 \<and>
      positions (meta (resetState G cb exampleColumns options apiRef)) = [Num 0, Num 100]"
    using example_resetState [of G options cb apiRef] by blast
qed

theorem toMeta_prefix_sums_witness:
  "(1::nat) < length [''a'', ''c''] \<and>
   [''a'', ''c''] \<noteq> [] \<and>
   snd (toMetaWith (\<lambda>x y. x + y) (0::nat) length [''a'', ''c'']) ! 1 = 1 \<and>
   snd (toMetaWith (\<lambda>x y. x + y) (0::nat) length [''a'', ''c'']) ! 0 = 0 \<and>
   map (\<lambda>c. getProp c ''width'')
     [[''field'' \<mapsto> Str ''a'', ''width'' \<mapsto> Num 100],
      [''field'' \<mapsto> Str ''c'', ''width'' \<mapsto> Num 80]] = map Num [100, 80] \<and>
   list_all (\<lambda>i. \<bar>sum_list (take i [100, 80 :: int])\<bar> \<le> 9007199254740992) [0, 1, 2] \<and>
   (1::nat) < length [[''field'' \<mapsto> Str ''a'', ''width'' \<mapsto> Num 100],
                      [''field'' \<mapsto> Str ''c'', ''width'' \<mapsto> Num 80]] \<and>
   (\<forall>t. \<not> truthy (getProp (exampleGetColDef t) ''hide'')) \<and>
   \<not> checkboxSelection \<lparr> checkboxSelection = False \<rparr> \<and>
   positions (toMeta [[''field'' \<mapsto> Str ''a'', ''width'' \<mapsto> Num 100],
                      [''field'' \<mapsto> Str ''c'', ''width'' \<mapsto> Num 80]]) ! 1 = Num 100 \<and>
   totalWidth (toMeta [[''field'' \<mapsto> Str ''a'', ''width'' \<mapsto> Num 100],
                       [''field'' \<mapsto> Str ''c'', ''width'' \<mapsto> Num 80]]) = Num 180 \<and>
   positions (meta (resetState exampleGetColDef exampleCheckboxColDef exampleColumns
      \<lparr> checkboxSelection = False \<rparr>
      (Some \<lparr> getSortModel = Some [\<lparr> colId = ''a'', sort = Str ''asc'' \<rparr>] \<rparr>))) =
     [Num 0, Num 100]"
proof -
  let ?vis = "[[''field'' \<mapsto> Str ''a'', ''width'' \<mapsto> Num 100],
               [''field'' \<mapsto> Str ''c'', ''width'' \<mapsto> Num 80]]"
  let ?api = "Some \<lparr> getSortModel = Some [\<lparr> colId = ''a'', sort = Str ''asc'' \<rparr>] \<rparr>"
  let ?ws = "[100, 80] :: int list"
  let ?T = "toMetaWith (\<lambda>x y. x + y) (0::nat) length [''a'', ''c'']"
  note t = toMeta_prefix_sums
             [where cols = ?vis and ws = ?ws and G = exampleGetColDef
                and cb = exampleCheckboxColDef and options = "\<lparr> checkboxSelection = False \<rparr>"
                and apiRef = ?api and addW = "\<lambda>x y. x + y" and zeroW = "0::nat"
                and widthOf = length and vis = "[''a'', ''c'']"]
  have ws: "map (\<lambda>c. getProp c ''width'') ?vis = map Num [100, 80]"
    by (simp add: getProp_def)
  have safe: "\<forall>i\<le>length ?ws. \<bar>sum_list (take i ?ws)\<bar> \<le> 9007199254740992"
  proof (intro allI impI)
    fix i :: nat
    assume "i \<le> length ?ws"
    then have "i = 0 \<or> i = 1 \<or> i = 2"
      by auto
    then show "\<bar>sum_list (take i ?ws)\<bar> \<le> 9007199254740992"
      by auto
  qed
  have g: "\<forall>t. \<not> truthy (getProp (exampleGetColDef t) ''hide'')"
    by (simp add: exampleGetColDef_def getProp_def)
  have P: "\<forall>i<length [''a'', ''c''].
             snd ?T ! i = foldl (\<lambda>x y. x + y) (0::nat) (map length (take i [''a'', ''c'']))"
    using t by (elim conjE)
  have Z: "[''a'', ''c''] \<noteq> [] \<longrightarrow> snd ?T ! 0 = 0"
    using t by (elim conjE)
  have A: "map (\<lambda>c. getProp c ''width'') ?vis = map Num [100, 80] \<and>
           (\<forall>i\<le>length ?ws. \<bar>sum_list (take i ?ws)\<bar> \<le> 9007199254740992) \<longrightarrow>
      (\<forall>i<length ?vis. positions (toMeta ?vis) ! i = Num (sum_list (take i ?ws))) \<and>
      totalWidth (toMeta ?vis) = Num (sum_list ?ws)"
    using t by (elim conjE)
  have B: "(\<forall>t. \<not> truthy (getProp (exampleGetColDef t) ''hide'')) \<and>
      \<not> checkboxSelection \<lparr> checkboxSelection = False \<rparr> \<longrightarrow>
      map (\<lambda>c. getProp c ''field'')
        (visible (resetState exampleGetColDef exampleCheckboxColDef exampleColumns
           \<lparr> checkboxSelection = False \<rparr> ?api)) = [Str ''a'', Str ''c''] \<and>
      totalWidth (meta (resetState exampleGetColDef exampleCheckboxColDef exampleColumns
           \<lparr> checkboxSelection = False \<rparr> ?api)) = Num 180 \<and>
      positions (meta (resetState exampleGetColDef exampleCheckboxColDef exampleColumns
           \<lparr> checkboxSelection = False \<rparr> ?api)) = [Num 0, Num 100]"
    using t by (elim conjE)
  have q1: "snd ?T ! 1 = 1"
    using P [rule_format, of 1] by simp
  have q0: "snd ?T ! 0 = 0"
    using Z by simp
  have A': "(\<forall>i<length ?vis. positions (toMeta ?vis) ! i = Num (sum_list (take i ?ws))) \<and>
      totalWidth (toMeta ?vis) = Num (sum_list ?ws)"
    using A ws safe by blast
  have p1: "positions (toMeta ?vis) ! 1 = Num (sum_list (take 1 ?ws))"
    using A' by simp
  have tw: "totalWidth (toMeta ?vis) = Num (sum_list ?ws)"
    using A' by simp
  have r: "positions (meta (resetState exampleGetColDef exampleCheckboxColDef exampleColumns
           \<lparr> checkboxSelection = False \<rparr> ?api)) = [Num 0, Num 100]"
    using B g by simp
  show ?thesis using ws g p1 tw r q1 q0 by simp
qed


end
